theory Spec2Isabelle
  imports Main "HOL-Library.Multiset"
begin

section \<open>Severity and Finding model (auditor.py, lines 28-69)\<close>

datatype Severity = CRITICAL | HIGH | MEDIUM | LOW | INFO


text \<open>The dataclass \<^verbatim>\<open>Finding\<close>. The field \<^verbatim>\<open>id\<close> is called \<open>id'\<close> here, since
  \<open>id\<close> is the identity function of HOL.\<close>

record Finding =
  id' :: string
  title :: string
  severity :: Severity
  category :: string
  file_path :: string
  line_number :: int
  code_snippet :: string
  description :: string
  recommendation :: string
  cwe_id :: "string option"
  owasp_category :: "string option"

text \<open>The dataclass \<^verbatim>\<open>AuditReport\<close>. Clock readings are opaque values supplied by the
  environment: \<open>scan_time\<close> stands for the \<^verbatim>\<open>datetime\<close> object.\<close>

type_synonym datetime = nat

record AuditReport =
  project_path :: string
  scan_time :: datetime
  duration_ms :: int
  files_scanned :: int
  lines_scanned :: int
  findings :: "Finding list"
  summary :: "(string \<times> int) list"

text \<open>\<^verbatim>\<open>len([f for f in self.findings if f.severity == s])\<close>, the comprehension that
  \<^verbatim>\<open>critical_count\<close>, \<^verbatim>\<open>high_count\<close> and \<^verbatim>\<open>to_dict\<close> repeat for each severity.\<close>

definition count_severity :: "Severity \<Rightarrow> Finding list \<Rightarrow> int" where
  "count_severity s fs = int (length (filter (\<lambda>f. severity f = s) fs))"

definition critical_count :: "AuditReport \<Rightarrow> int" where
  "critical_count r = count_severity CRITICAL (findings r)"

definition high_count :: "AuditReport \<Rightarrow> int" where
  "high_count r = count_severity HIGH (findings r)"

fun weights :: "Severity \<Rightarrow> int" where
  "weights CRITICAL = 25"
| "weights HIGH = 15"
| "weights MEDIUM = 5"
| "weights LOW = 2"
| "weights INFO = 0"

definition risk_score :: "AuditReport \<Rightarrow> int" where
  "risk_score r =
     (if findings r = [] then 0
      else let score = sum_list (map (\<lambda>f. weights (severity f)) (findings r))
           in min 100 score)"

section \<open>Exit code from the findings (auditor.py, main, lines 727-733)\<close>

text \<open>The last statement of \<^verbatim>\<open>main\<close>; it is reached only when everything before it
  completed. The whole of \<^verbatim>\<open>main\<close> is modelled further down.\<close>

definition main_exit_code :: "AuditReport \<Rightarrow> int" where
  "main_exit_code report =
     (if critical_count report > 0 then 2
      else if high_count report > 0 then 1
      else 0)"

section \<open>Finding ids (SecurityAuditor._generate_finding_id, lines 145-148)\<close>

text \<open>Decimal rendering of a natural number, as \<^verbatim>\<open>str\<close> and the \<^verbatim>\<open>d\<close> format do.\<close>

fun str_nat :: "nat \<Rightarrow> string" where
  "str_nat n =
     (if n < 10 then [''0123456789'' ! n]
      else str_nat (n div 10) @ [''0123456789'' ! (n mod 10)])"

declare str_nat.simps [simp del]

text \<open>\<^verbatim>\<open>f"{j}"\<close> for an integer.\<close>

definition str_int :: "int \<Rightarrow> string" where
  "str_int j = (if j < 0 then ''-'' @ str_nat (nat (- j)) else str_nat (nat j))"

text \<open>\<^verbatim>\<open>f"{n:04d}"\<close>: at least four characters, padded with zeros on the left. The
  counter starts at 0 and is only ever incremented, so it is a natural number.\<close>

definition format_04d :: "nat \<Rightarrow> string" where
  "format_04d n = replicate (4 - length (str_nat n)) (CHR ''0'') @ str_nat n"

text \<open>The method increments \<^verbatim>\<open>self.finding_counter\<close> and returns the id; the model
  returns the id and the new counter.\<close>

definition generate_finding_id :: "nat \<Rightarrow> string \<times> nat" where
  "generate_finding_id finding_counter =
     (let finding_counter' = finding_counter + 1
      in (''NF-'' @ format_04d finding_counter', finding_counter'))"

section \<open>Pattern registry (SecurityAuditor._load_security_patterns, lines 150-345)\<close>

text \<open>A rule is a dict with the keys below; \<^verbatim>\<open>cwe\<close> and \<^verbatim>\<open>owasp\<close> are read with
  \<^verbatim>\<open>.get\<close> and may be absent. The registry is a dict from category to a list of rules,
  iterated in insertion order.\<close>

record pattern_def =
  pd_pattern :: string
  pd_title :: string
  pd_severity :: Severity
  pd_cwe :: "string option"
  pd_owasp :: "string option"
  pd_description :: string
  pd_recommendation :: string

type_synonym registry = "(string \<times> pattern_def list) list"

text \<open>Characters that a HOL string literal cannot hold: backslash, double quote, single
  quote, newline.\<close>

definition bsl :: string where "bsl = [CHR 0x5C]"
definition dqt :: string where "dqt = [CHR 0x22]"
definition sqt :: string where "sqt = [CHR 0x27]"
definition newline :: string where "newline = [CHR 0x0A]"

definition load_security_patterns :: registry where
  "load_security_patterns = [
    (''secrets'', [
      \<lparr>pd_pattern = ''(?i)(password|passwd|pwd)'' @ bsl @ ''s*='' @ bsl @ ''s*['' @ dqt
          @ bsl @ sqt @ ''][^'' @ dqt @ bsl @ sqt @ '']+['' @ dqt @ bsl @ sqt @ '']'',
       pd_title = ''Hardcoded Password'',
       pd_severity = CRITICAL,
       pd_cwe = Some ''CWE-798'',
       pd_owasp = Some ''A07:2021'',
       pd_description = ''Hardcoded password found in source code. This is a critical security vulnerability.'',
       pd_recommendation = ''Use environment variables or a secure secrets manager.''\<rparr>,
      \<lparr>pd_pattern = ''(?i)(api[_-]?key|apikey|secret[_-]?key)'' @ bsl @ ''s*='' @ bsl
          @ ''s*['' @ dqt @ bsl @ sqt @ ''][A-Za-z0-9+/=]{16,}['' @ dqt @ bsl @ sqt @ '']'',
       pd_title = ''Hardcoded API Key'',
       pd_severity = CRITICAL,
       pd_cwe = Some ''CWE-798'',
       pd_owasp = Some ''A07:2021'',
       pd_description = ''API key or secret key hardcoded in source code.'',
       pd_recommendation = ''Store API keys in environment variables or secure vault.''\<rparr>,
      \<lparr>pd_pattern = ''(?i)(aws[_-]?access[_-]?key|aws[_-]?secret)'' @ bsl @ ''s*=''
          @ bsl @ ''s*['' @ dqt @ bsl @ sqt @ ''][A-Z0-9]{16,}['' @ dqt @ bsl @ sqt @ '']'',
       pd_title = ''AWS Credentials Exposed'',
       pd_severity = CRITICAL,
       pd_cwe = Some ''CWE-798'',
       pd_owasp = Some ''A07:2021'',
       pd_description = ''AWS credentials found hardcoded in source code.'',
       pd_recommendation = ''Use IAM roles or AWS Secrets Manager.''\<rparr>,
      \<lparr>pd_pattern = ''-----BEGIN (RSA |DSA |EC )?PRIVATE KEY-----'',
       pd_title = ''Private Key in Source'',
       pd_severity = CRITICAL,
       pd_cwe = Some ''CWE-321'',
       pd_owasp = Some ''A07:2021'',
       pd_description = ''Private key found in source code.'',
       pd_recommendation = ''Never commit private keys. Use secure key management.''\<rparr>]),
    (''injection'', [
      \<lparr>pd_pattern = ''execute'' @ bsl @ ''s*'' @ bsl @ ''('' @ bsl @ ''s*['' @ dqt
          @ bsl @ sqt @ '']?'' @ bsl @ ''s*SELECT.*%s'',
       pd_title = ''Potential SQL Injection'',
       pd_severity = HIGH,
       pd_cwe = Some ''CWE-89'',
       pd_owasp = Some ''A03:2021'',
       pd_description = ''String formatting in SQL query may allow SQL injection.'',
       pd_recommendation = ''Use parameterized queries or ORM methods.''\<rparr>,
      \<lparr>pd_pattern = ''cursor'' @ bsl @ ''.(execute|executemany)'' @ bsl @ ''s*'' @ bsl
          @ ''([^,]+'' @ bsl @ ''s*%'',
       pd_title = ''SQL Injection Risk'',
       pd_severity = HIGH,
       pd_cwe = Some ''CWE-89'',
       pd_owasp = Some ''A03:2021'',
       pd_description = ''Dynamic SQL query construction detected.'',
       pd_recommendation = ''Use query parameters: cursor.execute(sql, (param,))''\<rparr>,
      \<lparr>pd_pattern = ''subprocess'' @ bsl @ ''.(call|run|Popen)'' @ bsl @ ''s*'' @ bsl
          @ ''([^)]*shell'' @ bsl @ ''s*='' @ bsl @ ''s*True'',
       pd_title = ''Command Injection Risk'',
       pd_severity = HIGH,
       pd_cwe = Some ''CWE-78'',
       pd_owasp = Some ''A03:2021'',
       pd_description = ''Shell=True with subprocess may allow command injection.'',
       pd_recommendation = ''Avoid shell=True, use list of arguments instead.''\<rparr>,
      \<lparr>pd_pattern = ''eval'' @ bsl @ ''s*'' @ bsl @ ''([^)]*'' @ bsl @ '')'',
       pd_title = ''Dangerous eval() Usage'',
       pd_severity = HIGH,
       pd_cwe = Some ''CWE-95'',
       pd_owasp = Some ''A03:2021'',
       pd_description = ''eval() can execute arbitrary code if input is not sanitized.'',
       pd_recommendation = ''Use ast.literal_eval() for safe evaluation or avoid eval entirely.''\<rparr>,
      \<lparr>pd_pattern = ''exec'' @ bsl @ ''s*'' @ bsl @ ''([^)]*'' @ bsl @ '')'',
       pd_title = ''Dangerous exec() Usage'',
       pd_severity = HIGH,
       pd_cwe = Some ''CWE-95'',
       pd_owasp = Some ''A03:2021'',
       pd_description = ''exec() can execute arbitrary code.'',
       pd_recommendation = ''Avoid exec() with user-controlled input.''\<rparr>]),
    (''xss'', [
      \<lparr>pd_pattern = ''innerHTML'' @ bsl @ ''s*='',
       pd_title = ''Potential XSS via innerHTML'',
       pd_severity = MEDIUM,
       pd_cwe = Some ''CWE-79'',
       pd_owasp = Some ''A03:2021'',
       pd_description = ''Setting innerHTML can lead to XSS if content is not sanitized.'',
       pd_recommendation = ''Use textContent or sanitize HTML before insertion.''\<rparr>,
      \<lparr>pd_pattern = bsl @ ''|'' @ bsl @ ''s*safe'' @ bsl @ ''s*}}'',
       pd_title = ''Jinja2 Safe Filter Risk'',
       pd_severity = MEDIUM,
       pd_cwe = Some ''CWE-79'',
       pd_owasp = Some ''A03:2021'',
       pd_description = ''The |safe filter disables auto-escaping in Jinja2.'',
       pd_recommendation = ''Only use |safe with trusted, sanitized content.''\<rparr>,
      \<lparr>pd_pattern = ''mark_safe'' @ bsl @ ''s*'' @ bsl @ ''('',
       pd_title = ''Django mark_safe Risk'',
       pd_severity = MEDIUM,
       pd_cwe = Some ''CWE-79'',
       pd_owasp = Some ''A03:2021'',
       pd_description = ''mark_safe() marks content as safe HTML without escaping.'',
       pd_recommendation = ''Ensure content is properly sanitized before using mark_safe.''\<rparr>]),
    (''crypto'', [
      \<lparr>pd_pattern = ''(?i)(md5|sha1)'' @ bsl @ ''s*'' @ bsl @ ''('',
       pd_title = ''Weak Hash Algorithm'',
       pd_severity = MEDIUM,
       pd_cwe = Some ''CWE-328'',
       pd_owasp = Some ''A02:2021'',
       pd_description = ''MD5 and SHA1 are cryptographically weak.'',
       pd_recommendation = ''Use SHA-256 or stronger for security-sensitive hashing.''\<rparr>,
      \<lparr>pd_pattern = ''(?i)DES|RC4|Blowfish'',
       pd_title = ''Weak Encryption Algorithm'',
       pd_severity = HIGH,
       pd_cwe = Some ''CWE-327'',
       pd_owasp = Some ''A02:2021'',
       pd_description = ''Using outdated or weak encryption algorithm.'',
       pd_recommendation = ''Use AES-256 or ChaCha20 for encryption.''\<rparr>,
      \<lparr>pd_pattern = ''random'' @ bsl @ ''.random'' @ bsl @ ''s*'' @ bsl @ ''(|random''
          @ bsl @ ''.randint'' @ bsl @ ''s*'' @ bsl @ ''('',
       pd_title = ''Insecure Random Number Generator'',
       pd_severity = MEDIUM,
       pd_cwe = Some ''CWE-330'',
       pd_owasp = Some ''A02:2021'',
       pd_description = ''Using non-cryptographic random for potentially sensitive operations.'',
       pd_recommendation = ''Use secrets module for security-sensitive random values.''\<rparr>]),
    (''auth'', [
      \<lparr>pd_pattern = ''verify'' @ bsl @ ''s*='' @ bsl @ ''s*False'',
       pd_title = ''SSL Certificate Verification Disabled'',
       pd_severity = HIGH,
       pd_cwe = Some ''CWE-295'',
       pd_owasp = Some ''A07:2021'',
       pd_description = ''SSL certificate verification is disabled, enabling MITM attacks.'',
       pd_recommendation = ''Always verify SSL certificates in production.''\<rparr>,
      \<lparr>pd_pattern = ''(?i)debug'' @ bsl @ ''s*='' @ bsl @ ''s*True'',
       pd_title = ''Debug Mode Enabled'',
       pd_severity = MEDIUM,
       pd_cwe = Some ''CWE-489'',
       pd_owasp = Some ''A05:2021'',
       pd_description = ''Debug mode should not be enabled in production.'',
       pd_recommendation = ''Use environment-based configuration for debug settings.''\<rparr>,
      \<lparr>pd_pattern = ''ALLOWED_HOSTS'' @ bsl @ ''s*='' @ bsl @ ''s*'' @ bsl @ ''[''
          @ bsl @ ''s*['' @ dqt @ bsl @ sqt @ '']?'' @ bsl @ ''*['' @ dqt @ bsl @ sqt @ '']?''
          @ bsl @ ''s*'' @ bsl @ '']'',
       pd_title = ''Django ALLOWED_HOSTS Wildcard'',
       pd_severity = MEDIUM,
       pd_cwe = Some ''CWE-183'',
       pd_owasp = Some ''A05:2021'',
       pd_description = ''Wildcard ALLOWED_HOSTS enables host header attacks.'',
       pd_recommendation = ''Specify explicit allowed hostnames.''\<rparr>]),
    (''logging'', [
      \<lparr>pd_pattern = ''print'' @ bsl @ ''s*'' @ bsl @ ''([^)]*password'',
       pd_title = ''Password Logged to Console'',
       pd_severity = HIGH,
       pd_cwe = Some ''CWE-532'',
       pd_owasp = Some ''A09:2021'',
       pd_description = ''Sensitive data may be logged to console output.'',
       pd_recommendation = ''Never log passwords or sensitive data.''\<rparr>,
      \<lparr>pd_pattern = ''logging'' @ bsl @ ''.(debug|info|warning|error)'' @ bsl @ ''s*''
          @ bsl @ ''([^)]*password'',
       pd_title = ''Password in Log Statement'',
       pd_severity = HIGH,
       pd_cwe = Some ''CWE-532'',
       pd_owasp = Some ''A09:2021'',
       pd_description = ''Sensitive data may be written to log files.'',
       pd_recommendation = ''Sanitize sensitive data before logging.''\<rparr>])]"


section \<open>The environment of a scan\<close>

text \<open>Exceptions that the modelled code can meet: \<^verbatim>\<open>re.error\<close> from \<^verbatim>\<open>re.compile\<close>, an
  exception of \<^verbatim>\<open>ast.parse\<close> that is not a \<^verbatim>\<open>SyntaxError\<close>, and a failure of
  \<^verbatim>\<open>read_text\<close>.\<close>

datatype error = RegexError | AstError | ReadError

text \<open>What \<^verbatim>\<open>ast.walk(tree)\<close> yields: the node kinds that the inspector tests, with the
  attributes it reads. \<open>ExceptHandler None n\<close> is a handler whose \<^verbatim>\<open>type\<close> is
  \<^verbatim>\<open>None\<close>; \<open>Import names n\<close> carries the \<^verbatim>\<open>alias.name\<close> of each alias.\<close>

datatype ast_node =
    Assert int
  | ExceptHandler "string option" int
  | Import "string list" int
  | OtherNode

text \<open>The outcome of \<^verbatim>\<open>ast.parse(content)\<close>: a tree (given by its nodes in the order of
  \<^verbatim>\<open>ast.walk\<close>), a \<^verbatim>\<open>SyntaxError\<close>, or another exception (\<^verbatim>\<open>MemoryError\<close> or
  \<^verbatim>\<open>RecursionError\<close> on deeply nested source, \<^verbatim>\<open>ValueError\<close> on a null byte in older
  interpreters).\<close>

datatype parse_result = Tree "ast_node list" | SyntaxError | OtherError

text \<open>A path yielded by \<^verbatim>\<open>rglob\<close>: its \<^verbatim>\<open>parts\<close>, its path relative to the project
  root, its \<^verbatim>\<open>suffix\<close>, the lines of its text (\<^verbatim>\<open>read_text(errors='ignore').splitlines()\<close>,
  \<open>None\<close> when \<^verbatim>\<open>read_text\<close> raises) and the outcome of parsing its text.\<close>

record source_file =
  parts :: "string list"
  rel_path :: string
  suffix :: string
  text_lines :: "string list option"
  parsed :: parse_result

text \<open>Parsed JSON, for \<^verbatim>\<open>package.json\<close> and for the structured output. An object is the
  dict in insertion order.\<close>

datatype json =
    JNull
  | JBool bool
  | JNum int
  | JStr string
  | JArr "json list"
  | JObj "(string \<times> json) list"

text \<open>\<^verbatim>\<open>requirements.txt\<close> at the project root: absent, present but \<^verbatim>\<open>read_text()\<close>
  raises (no error handler is given there, so undecodable bytes raise, as a directory of
  that name does), or its lines.\<close>

datatype requirements_file = NoRequirements | RequirementsUnreadable | Requirements "string list"

text \<open>\<^verbatim>\<open>package.json\<close> at the project root: absent, present but \<^verbatim>\<open>read_text\<close> or
  \<^verbatim>\<open>json.loads\<close> raises, or the parsed value.\<close>

datatype package_file = NoPackageJson | PackageMalformed | PackageJson json

text \<open>Everything a scan reads from outside: the regular-expression engine
  (\<open>re_compile p\<close> is \<open>None\<close> when \<^verbatim>\<open>re.compile(p)\<close> raises, else the predicate
  \<^verbatim>\<open>regex.search(line) is not None\<close>), the order in which the set \<^verbatim>\<open>extensions\<close> is
  iterated, the paths \<^verbatim>\<open>rglob("*" + ext)\<close> yields for each extension, the two manifests,
  the clock, and \<^verbatim>\<open>str.lower\<close> with its Unicode case mapping.\<close>

record environment =
  re_compile :: "string \<Rightarrow> (string \<Rightarrow> bool) option"
  str_lower :: "string \<Rightarrow> string"
  ext_order :: "string list"
  rglob :: "string \<Rightarrow> source_file list"
  requirements_txt :: requirements_file
  package_json :: package_file
  clock_start :: datetime
  clock_duration_ms :: int

text \<open>The elements of the set literal \<^verbatim>\<open>extensions\<close>. Python iterates a set of strings in
  an order that depends on the process's hash seed; an environment is well formed when its
  \<open>ext_order\<close> lists each element once.\<close>

definition extensions :: "string list" where
  "extensions = [''.py'', ''.js'', ''.ts'', ''.jsx'', ''.tsx'', ''.java'', ''.go'', ''.rb'', ''.php'']"


section \<open>The auditor object (SecurityAuditor.__init__, lines 137-143)\<close>

record SecurityAuditor =
  self_project_path :: string
  self_findings :: "Finding list"
  finding_counter :: nat
  patterns :: registry

text \<open>The constructor stores \<^verbatim>\<open>Path(project_path)\<close>, and the report later holds
  \<^verbatim>\<open>str\<close> of it. A path object is represented by that text, so the argument of \<open>init\<close>
  is \<^verbatim>\<open>str(Path(project_path))\<close>: the caller applies the normalisation of \<^verbatim>\<open>Path\<close>.\<close>

definition init :: "string \<Rightarrow> SecurityAuditor" where
  "init p =
     \<lparr>self_project_path = p, self_findings = [], finding_counter = 0,
      patterns = load_security_patterns\<rparr>"

section \<open>Textual scanner (SecurityAuditor.scan_file, lines 347-390)\<close>

text \<open>\<^verbatim>\<open>enumerate(lines, 1)\<close>; \<open>enumerate\<close> itself is a constant of HOL.\<close>

fun enumerate' :: "int \<Rightarrow> 'a list \<Rightarrow> (int \<times> 'a) list" where
  "enumerate' i [] = []"
| "enumerate' i (x # xs) = (i, x) # enumerate' (i + 1) xs"

text \<open>\<^verbatim>\<open>sep.join(parts)\<close>.\<close>

fun join :: "string \<Rightarrow> string list \<Rightarrow> string" where
  "join sep [] = []"
| "join sep [x] = x"
| "join sep (x # y # ys) = x @ sep @ join sep (y # ys)"

text \<open>Lines 367-369: the context of a match on line \<open>i\<close>. Every index \<open>j - 1\<close> read is
  within the list, since \<open>1 \<le> start + 1\<close> and \<open>end \<le> len(lines)\<close>.\<close>

definition context_snippet :: "string list \<Rightarrow> int \<Rightarrow> string" where
  "context_snippet lines i =
     (let start = max 0 (i - 3);
          end' = min (int (length lines)) (i + 2)
      in join newline (map (\<lambda>j. str_int j @ '': '' @ lines ! nat (j - 1)) [start + 1 .. end']))"

text \<open>Lines 365-384: one iteration of the loop over the lines, for a compiled rule. The
  state is the local list \<^verbatim>\<open>findings\<close> and \<^verbatim>\<open>self.finding_counter\<close>.\<close>

definition scan_line ::
  "(string \<Rightarrow> bool) \<Rightarrow> string \<Rightarrow> pattern_def \<Rightarrow> string \<Rightarrow> string list \<Rightarrow> int \<times> string
     \<Rightarrow> Finding list \<times> nat \<Rightarrow> Finding list \<times> nat" where
  "scan_line search category' pd rel lines il st =
     (case il of (i, line) \<Rightarrow> case st of (fs, counter) \<Rightarrow>
        if search line then
          let snippet = context_snippet lines i;
              (fid, counter') = generate_finding_id counter;
              finding = \<lparr>id' = fid, title = pd_title pd, severity = pd_severity pd,
                         category = category', file_path = rel, line_number = i,
                         code_snippet = snippet, description = pd_description pd,
                         recommendation = pd_recommendation pd, cwe_id = pd_cwe pd,
                         owasp_category = pd_owasp pd\<rparr>
          in (fs @ [finding], counter')
        else (fs, counter))"

text \<open>Lines 361-384: the loop over the rules of one category. \<^verbatim>\<open>re.compile\<close> runs once
  per rule and file; when it raises, the exception leaves \<^verbatim>\<open>scan_file\<close>: the local list
  is lost, the counter keeps the increments made so far.\<close>

fun scan_rules ::
  "(string \<Rightarrow> (string \<Rightarrow> bool) option) \<Rightarrow> string \<Rightarrow> string list \<Rightarrow> string
     \<Rightarrow> pattern_def list \<Rightarrow> Finding list \<times> nat \<Rightarrow> (error + Finding list) \<times> nat" where
  "scan_rules re rel lines category' [] (fs, counter) = (Inr fs, counter)"
| "scan_rules re rel lines category' (pd # pds) (fs, counter) =
     (case re (pd_pattern pd) of
        None \<Rightarrow> (Inl RegexError, counter)
      | Some search \<Rightarrow>
          scan_rules re rel lines category' pds
            (fold (scan_line search category' pd rel lines) (enumerate' 1 lines) (fs, counter)))"

text \<open>Lines 360-384: the loop over \<^verbatim>\<open>self.patterns.items()\<close>.\<close>

fun scan_categories ::
  "(string \<Rightarrow> (string \<Rightarrow> bool) option) \<Rightarrow> string \<Rightarrow> string list
     \<Rightarrow> registry \<Rightarrow> Finding list \<times> nat \<Rightarrow> (error + Finding list) \<times> nat" where
  "scan_categories re rel lines [] (fs, counter) = (Inr fs, counter)"
| "scan_categories re rel lines ((category', pds) # rest) (fs, counter) =
     (case scan_rules re rel lines category' pds (fs, counter) of
        (Inl e, counter') \<Rightarrow> (Inl e, counter')
      | (Inr fs', counter') \<Rightarrow> scan_categories re rel lines rest (fs', counter'))"

text \<open>Two notions used to state what the pattern loops produce: whether a rule's pattern
  compiles and finds a match in a line, and the registry as one list of
  (category, rule) pairs in iteration order.\<close>

definition rule_matches ::
  "(string \<Rightarrow> (string \<Rightarrow> bool) option) \<Rightarrow> pattern_def \<Rightarrow> string \<Rightarrow> bool" where
  "rule_matches re pd line =
     (case re (pd_pattern pd) of None \<Rightarrow> False | Some search \<Rightarrow> search line)"

definition all_rules :: "registry \<Rightarrow> (string \<times> pattern_def) list" where
  "all_rules pats = concat (map (\<lambda>(category', pds). map (Pair category') pds) pats)"

text \<open>The context window as the specification words it: the line range
  \<open>[i - 3, i + 2]\<close> clamped to the file bounds \<open>[1, L]\<close>, each line prefixed with its
  1-indexed number. It is stated here to be compared with \<open>context_snippet\<close>.\<close>

definition spec_context_snippet :: "string list \<Rightarrow> int \<Rightarrow> string" where
  "spec_context_snippet lines i =
     join newline (map (\<lambda>j. str_int j @ '': '' @ lines ! nat (j - 1))
       [max 1 (i - 3) .. min (int (length lines)) (i + 2)])"

section \<open>Structural inspector (SecurityAuditor._analyze_python_ast, lines 392-450)\<close>

text \<open>The body of the loop over \<^verbatim>\<open>ast.walk(tree)\<close>: the three \<^verbatim>\<open>isinstance\<close> tests.\<close>

fun visit_node :: "string \<Rightarrow> ast_node \<Rightarrow> Finding list \<times> nat \<Rightarrow> Finding list \<times> nat" where
  "visit_node rel (Assert lineno) (fs, counter) =
     (let (fid, counter') = generate_finding_id counter
      in (fs @ [\<lparr>id' = fid, title = ''Security Assert Statement'', severity = LOW,
                 category = ''code_quality'', file_path = rel, line_number = lineno,
                 code_snippet = str_int lineno @ '': assert ...'',
                 description = ''Assert statements are removed when Python runs with -O flag.'',
                 recommendation = ''Use explicit if/raise for security checks.'',
                 cwe_id = Some ''CWE-617'', owasp_category = None\<rparr>], counter'))"
| "visit_node rel (ExceptHandler None lineno) (fs, counter) =
     (let (fid, counter') = generate_finding_id counter
      in (fs @ [\<lparr>id' = fid, title = ''Bare Except Clause'', severity = LOW,
                 category = ''code_quality'', file_path = rel, line_number = lineno,
                 code_snippet = str_int lineno @ '': except:'',
                 description = ''Bare except catches all exceptions including KeyboardInterrupt.'',
                 recommendation = ''Catch specific exceptions: except Exception:'',
                 cwe_id = Some ''CWE-396'', owasp_category = None\<rparr>], counter'))"
| "visit_node rel (ExceptHandler (Some t) lineno) (fs, counter) = (fs, counter)"
| "visit_node rel (Import names lineno) (fs, counter) =
     fold (\<lambda>alias_name (fs, counter).
             if alias_name = ''pickle'' then
               let (fid, counter') = generate_finding_id counter
               in (fs @ [\<lparr>id' = fid, title = ''Pickle Deserialization Risk'', severity = MEDIUM,
                          category = ''injection'', file_path = rel, line_number = lineno,
                          code_snippet = str_int lineno @ '': import pickle'',
                          description = ''Pickle can execute arbitrary code during deserialization.'',
                          recommendation =
                            ''Use JSON or other safe serialization formats for untrusted data.'',
                          cwe_id = Some ''CWE-502'', owasp_category = Some ''A08:2021''\<rparr>],
                   counter')
             else (fs, counter))
          names (fs, counter)"
| "visit_node rel OtherNode (fs, counter) = (fs, counter)"

text \<open>Only \<^verbatim>\<open>SyntaxError\<close> is caught around \<^verbatim>\<open>ast.parse\<close>; any other exception leaves
  the method.\<close>

definition analyze_python_ast ::
  "parse_result \<Rightarrow> string \<Rightarrow> nat \<Rightarrow> (error + Finding list) \<times> nat" where
  "analyze_python_ast p rel counter =
     (case p of
        SyntaxError \<Rightarrow> (Inr [], counter)
      | OtherError \<Rightarrow> (Inl AstError, counter)
      | Tree nodes \<Rightarrow>
          (case fold (visit_node rel) nodes ([], counter) of
             (fs, counter') \<Rightarrow> (Inr fs, counter')))"

text \<open>\<^verbatim>\<open>scan_file\<close> as a whole: read (an exception there returns the empty list), the
  pattern loops, then the AST findings for a \<^verbatim>\<open>.py\<close> suffix.\<close>

definition scan_file ::
  "(string \<Rightarrow> (string \<Rightarrow> bool) option) \<Rightarrow> registry \<Rightarrow> source_file \<Rightarrow> nat
     \<Rightarrow> (error + Finding list) \<times> nat" where
  "scan_file re pats file counter =
     (case text_lines file of
        None \<Rightarrow> (Inr [], counter)
      | Some lines \<Rightarrow>
          (case scan_categories re (rel_path file) lines pats ([], counter) of
             (Inl e, c1) \<Rightarrow> (Inl e, c1)
           | (Inr fs, c1) \<Rightarrow>
               if suffix file = ''.py'' then
                 (case analyze_python_ast (parsed file) (rel_path file) c1 of
                    (Inl e, c2) \<Rightarrow> (Inl e, c2)
                  | (Inr ast_fs, c2) \<Rightarrow> (Inr (fs @ ast_fs), c2))
               else (Inr fs, c1)))"

section \<open>Dependency scanner (SecurityAuditor.scan_dependencies, lines 452-509)\<close>

text \<open>\<^verbatim>\<open>s.startswith(p)\<close> and \<^verbatim>\<open>needle in hay\<close> on strings.\<close>

fun startswith :: "string \<Rightarrow> string \<Rightarrow> bool" where
  "startswith s [] = True"
| "startswith [] (d # p) = False"
| "startswith (c # s) (d # p) = (c = d \<and> startswith s p)"

fun contains :: "string \<Rightarrow> string \<Rightarrow> bool" where
  "contains needle [] = (needle = [])"
| "contains needle (c # hay) = (startswith (c # hay) needle \<or> contains needle hay)"

text \<open>The dict \<^verbatim>\<open>vulnerable_packages\<close>, in insertion order.\<close>

definition vulnerable_packages :: "(string \<times> string \<times> Severity) list" where
  "vulnerable_packages =
     [(''django<3.2'', ''Django Security Update Required'', HIGH),
      (''flask<2.0'', ''Flask Security Update Recommended'', MEDIUM),
      (''requests<2.20'', ''Requests CVE-2018-18074'', HIGH),
      (''pyyaml<5.4'', ''PyYAML Arbitrary Code Execution'', CRITICAL),
      (''urllib3<1.26.5'', ''urllib3 CVE-2021-33503'', MEDIUM)]"

text \<open>Line 471, the condition
  \<^verbatim>\<open>any(vuln_pattern.split("<")[0] in line.lower() for line in content.splitlines())\<close>;
  \<^verbatim>\<open>vuln_pattern.split("<")[0]\<close> is the text before the first \<^verbatim>\<open><\<close>. \<^verbatim>\<open>str.lower\<close>
  follows the Unicode case mapping; it is taken from the environment as \<open>lower\<close>.\<close>

definition mentions :: "(string \<Rightarrow> string) \<Rightarrow> string list \<Rightarrow> string \<Rightarrow> bool" where
  "mentions lower content_lines vuln_pattern \<longleftrightarrow>
     list_ex (\<lambda>line. contains (takeWhile (\<lambda>c. c \<noteq> CHR ''<'') vuln_pattern) (lower line))
       content_lines"

text \<open>Lines 470-484: one iteration of the loop over \<^verbatim>\<open>vulnerable_packages.items()\<close>.\<close>

definition check_package ::
  "(string \<Rightarrow> string) \<Rightarrow> string list \<Rightarrow> string \<times> string \<times> Severity \<Rightarrow> Finding list \<times> nat
     \<Rightarrow> Finding list \<times> nat" where
  "check_package lower content_lines entry st =
     (case entry of (vuln_pattern, title', severity') \<Rightarrow> case st of (fs, counter) \<Rightarrow>
        if mentions lower content_lines vuln_pattern then
          let (fid, counter') = generate_finding_id counter
          in (fs @ [\<lparr>id' = fid, title = title', severity = severity',
                     category = ''dependencies'', file_path = ''requirements.txt'',
                     line_number = 1, code_snippet = ''Check requirements.txt'',
                     description = ''Potentially vulnerable dependency: '' @ vuln_pattern,
                     recommendation = ''Update to the latest secure version.'',
                     cwe_id = Some ''CWE-1104'', owasp_category = Some ''A06:2021''\<rparr>],
              counter')
        else (fs, counter))"

text \<open>Lines 456-484: the \<^verbatim>\<open>requirements.txt\<close> block. \<^verbatim>\<open>read_text()\<close> is not inside a
  \<^verbatim>\<open>try\<close>, so its exception leaves \<^verbatim>\<open>scan_dependencies\<close>.\<close>

definition scan_requirements ::
  "(string \<Rightarrow> string) \<Rightarrow> requirements_file \<Rightarrow> Finding list \<times> nat
     \<Rightarrow> (error + Finding list) \<times> nat" where
  "scan_requirements lower req st =
     (case req of
        NoRequirements \<Rightarrow> (Inr (fst st), snd st)
      | RequirementsUnreadable \<Rightarrow> (Inl ReadError, snd st)
      | Requirements content_lines \<Rightarrow>
          (case fold (check_package lower content_lines) vulnerable_packages st of
             (fs, counter) \<Rightarrow> (Inr fs, counter)))"

text \<open>\<^verbatim>\<open>pkg_data.get(key, {})\<close> raises when \<^verbatim>\<open>pkg_data\<close> is not a dict, and
  \<^verbatim>\<open>{**a, **b}\<close> raises unless both are dicts; \<open>None\<close> stands for the exception.\<close>

definition dict_get_default :: "json \<Rightarrow> string \<Rightarrow> json option" where
  "dict_get_default pkg_data key =
     (case pkg_data of
        JObj kvs \<Rightarrow> (case map_of kvs key of None \<Rightarrow> Some (JObj []) | Some v \<Rightarrow> Some v)
      | _ \<Rightarrow> None)"

definition merged_deps :: "json \<Rightarrow> (string \<times> json) list option" where
  "merged_deps pkg_data =
     (case dict_get_default pkg_data ''dependencies'' of
        None \<Rightarrow> None
      | Some a \<Rightarrow>
          (case dict_get_default pkg_data ''devDependencies'' of
             None \<Rightarrow> None
           | Some b \<Rightarrow>
               (case (a, b) of
                  (JObj da, JObj db) \<Rightarrow> Some (da @ db)
                | _ \<Rightarrow> None)))"

text \<open>Lines 486-507: the \<^verbatim>\<open>package.json\<close> block; the bare \<^verbatim>\<open>except: pass\<close> swallows
  every exception of reading, parsing and merging.\<close>

definition scan_package_json ::
  "package_file \<Rightarrow> Finding list \<times> nat \<Rightarrow> Finding list \<times> nat" where
  "scan_package_json pkg st =
     (case st of (fs, counter) \<Rightarrow>
        (case pkg of
           NoPackageJson \<Rightarrow> (fs, counter)
         | PackageMalformed \<Rightarrow> (fs, counter)
         | PackageJson pkg_data \<Rightarrow>
             (case merged_deps pkg_data of
                None \<Rightarrow> (fs, counter)
              | Some deps \<Rightarrow>
                  if ''lodash'' \<in> set (map fst deps) then
                    let (fid, counter') = generate_finding_id counter
                    in (fs @ [\<lparr>id' = fid, title = ''Check Lodash Version'', severity = INFO,
                               category = ''dependencies'', file_path = ''package.json'',
                               line_number = 1, code_snippet = ''lodash in dependencies'',
                               description =
                                 ''Lodash has had multiple CVEs. Ensure version is current.'',
                               recommendation = ''Run '' @ sqt @ ''npm audit'' @ sqt
                                 @ '' for detailed vulnerability check.'',
                               cwe_id = None, owasp_category = None\<rparr>],
                        counter')
                  else (fs, counter))))"

definition scan_dependencies ::
  "(string \<Rightarrow> string) \<Rightarrow> requirements_file \<Rightarrow> package_file \<Rightarrow> nat
     \<Rightarrow> (error + Finding list) \<times> nat" where
  "scan_dependencies lower req pkg counter =
     (case scan_requirements lower req ([], counter) of
        (Inl e, c1) \<Rightarrow> (Inl e, c1)
      | (Inr fs, c1) \<Rightarrow>
          (case scan_package_json pkg (fs, c1) of (fs', c2) \<Rightarrow> (Inr fs', c2)))"

section \<open>The scan (SecurityAuditor.scan, lines 511-562)\<close>

definition excluded_parts :: "string list" where
  "excluded_parts =
     [''node_modules'', ''.git'', ''__pycache__'', ''venv'', ''.venv'',
      ''target'', ''build'', ''dist'', ''.tox'']"

text \<open>Lines 522-537: the body of the loop over the paths of one extension. The state is
  the auditor object and the locals \<^verbatim>\<open>files_scanned\<close> and \<^verbatim>\<open>lines_scanned\<close>. An
  exception of \<^verbatim>\<open>scan_file\<close> is swallowed by the bare \<^verbatim>\<open>except: continue\<close>: the file's
  findings are not added, the two counts and the id counter keep their increments.\<close>

definition scan_path ::
  "(string \<Rightarrow> (string \<Rightarrow> bool) option) \<Rightarrow> source_file \<Rightarrow> SecurityAuditor \<times> int \<times> int
     \<Rightarrow> SecurityAuditor \<times> int \<times> int" where
  "scan_path re file st =
     (case st of (self, files_scanned', lines_scanned') \<Rightarrow>
        if list_ex (\<lambda>part. part \<in> set (parts file)) excluded_parts then st
        else
          (case text_lines file of
             None \<Rightarrow> st
           | Some lines \<Rightarrow>
               let lines_scanned'' = lines_scanned' + int (length lines);
                   files_scanned'' = files_scanned' + 1
               in (case scan_file re (patterns self) file (finding_counter self) of
                     (Inl e, counter') \<Rightarrow>
                       (self\<lparr>finding_counter := counter'\<rparr>, files_scanned'', lines_scanned'')
                   | (Inr file_findings, counter') \<Rightarrow>
                       (self\<lparr>finding_counter := counter',
                              self_findings := self_findings self @ file_findings\<rparr>,
                        files_scanned'', lines_scanned''))))"

text \<open>Lines 520-537: the two nested loops.\<close>

definition scan_tree ::
  "environment \<Rightarrow> SecurityAuditor \<times> int \<times> int \<Rightarrow> SecurityAuditor \<times> int \<times> int" where
  "scan_tree env st =
     fold (\<lambda>ext st. fold (scan_path (re_compile env)) (rglob env ext) st) (ext_order env) st"

fun severity_order :: "Severity \<Rightarrow> nat" where
  "severity_order CRITICAL = 0"
| "severity_order HIGH = 1"
| "severity_order MEDIUM = 2"
| "severity_order LOW = 3"
| "severity_order INFO = 4"

text \<open>Lines 513-540 of \<^verbatim>\<open>scan\<close>: the tree is scanned and the dependency findings are
  appended. The result is the auditor object with \<^verbatim>\<open>self.findings\<close> in discovery order
  and the two counts, or the exception that left the method (with the object as it is
  then).\<close>

definition scan_collect ::
  "environment \<Rightarrow> SecurityAuditor \<Rightarrow> (error + int \<times> int) \<times> SecurityAuditor" where
  "scan_collect env self =
     (case scan_tree env (self, 0, 0) of (self1, files_scanned', lines_scanned') \<Rightarrow>
        (case scan_dependencies (str_lower env) (requirements_txt env) (package_json env)
                (finding_counter self1) of
           (Inl e, counter') \<Rightarrow> (Inl e, self1\<lparr>finding_counter := counter'\<rparr>)
         | (Inr dep_findings, counter') \<Rightarrow>
             (Inr (files_scanned', lines_scanned'),
              self1\<lparr>finding_counter := counter',
                     self_findings := self_findings self1 @ dep_findings\<rparr>)))"

text \<open>Lines 542-562: the sort by severity and the report. \<^verbatim>\<open>list.sort\<close> is stable, as
  \<open>sort_key\<close> is.\<close>

definition scan :: "environment \<Rightarrow> SecurityAuditor \<Rightarrow> (error + AuditReport) \<times> SecurityAuditor" where
  "scan env self =
     (case scan_collect env self of
        (Inl e, self2) \<Rightarrow> (Inl e, self2)
      | (Inr (files_scanned', lines_scanned'), self2) \<Rightarrow>
          let self3 = self2\<lparr>self_findings :=
                              sort_key (\<lambda>f. severity_order (severity f)) (self_findings self2)\<rparr>
          in (Inr \<lparr>project_path = self_project_path self3,
                   scan_time = clock_start env,
                   duration_ms = clock_duration_ms env,
                   files_scanned = files_scanned',
                   lines_scanned = lines_scanned',
                   findings = self_findings self3,
                   summary = []\<rparr>,
              self3))"

text \<open>Three notions used to state what a scan counts: the paths in the order the two
  loops visit them, whether a path passes the directory filter and is read (so that it is
  counted in \<^verbatim>\<open>files_scanned\<close>), and the number of its lines.\<close>

definition walked :: "environment \<Rightarrow> source_file list" where
  "walked env = concat (map (rglob env) (ext_order env))"

definition counted :: "source_file \<Rightarrow> bool" where
  "counted file \<longleftrightarrow>
     \<not> list_ex (\<lambda>part. part \<in> set (parts file)) excluded_parts \<and> text_lines file \<noteq> None"

definition line_count :: "source_file \<Rightarrow> int" where
  "line_count file = (case text_lines file of None \<Rightarrow> 0 | Some lines \<Rightarrow> int (length lines))"

text \<open>Notions used to compare two scans: a finding without its id; two results of a
  scanner that raise the same exception or return the same findings up to their ids; and
  the findings that \<^verbatim>\<open>scan\<close> keeps from one path (none when the path is filtered out or
  unreadable, none when \<^verbatim>\<open>scan_file\<close> raises).\<close>

definition anonymous :: "Finding \<Rightarrow> Finding" where
  "anonymous f = f\<lparr>id' := []\<rparr>"

definition same_outcome ::
  "(error + Finding list) \<times> nat \<Rightarrow> (error + Finding list) \<times> nat \<Rightarrow> bool" where
  "same_outcome a b =
     (case (fst a, fst b) of
        (Inl e, Inl e') \<Rightarrow> e = e'
      | (Inr fs, Inr gs) \<Rightarrow> map anonymous fs = map anonymous gs
      | _ \<Rightarrow> False)"

definition file_findings ::
  "(string \<Rightarrow> (string \<Rightarrow> bool) option) \<Rightarrow> registry \<Rightarrow> source_file \<Rightarrow> Finding list" where
  "file_findings re pats file =
     (if counted file then
        (case fst (scan_file re pats file 0) of Inr fs \<Rightarrow> fs | Inl e \<Rightarrow> [])
      else [])"

section \<open>Structured output (Finding.to_dict, AuditReport.to_dict, lines 52-69 and 108-127)\<close>





section \<open>Command-line entry point (main, lines 686-733)\<close>

text \<open>\<^verbatim>\<open>generate_report_markdown\<close> evaluates \<^verbatim>\<open>finding.cwe_id.split('-')[1]\<close> for every
  finding whose \<^verbatim>\<open>cwe_id\<close> is truthy (line 642); that raises \<^verbatim>\<open>IndexError\<close> when the
  text holds no \<^verbatim>\<open>-\<close>. Nothing else in the renderer raises.\<close>

definition markdown_raises :: "AuditReport \<Rightarrow> bool" where
  "markdown_raises report \<longleftrightarrow>
     list_ex (\<lambda>f. case cwe_id f of
                     None \<Rightarrow> False
                   | Some c \<Rightarrow> c \<noteq> [] \<and> CHR ''-'' \<notin> set c)
       (findings report)"

text \<open>One run of the program: \<^verbatim>\<open>sys.argv\<close>, the text \<^verbatim>\<open>str(Path(s))\<close> of a path
  argument, the environment the scan reads, whether the calls of \<^verbatim>\<open>print\<close> complete
  (a closed pipe or a standard output that cannot encode the banner makes them raise),
  and whether \<^verbatim>\<open>Path(output_file).write_text\<close> completes.\<close>

record invocation =
  argv :: "string list"
  path_text :: "string \<Rightarrow> string"
  world :: environment
  print_ok :: bool
  write_ok :: bool

text \<open>Lines 702-707: the argument after the first \<^verbatim>\<open>--output\<close>, when there is one.\<close>

definition output_file_arg :: "string list \<Rightarrow> string option" where
  "output_file_arg args =
     (if ''--output'' \<in> set args then
        let idx = length (takeWhile (\<lambda>a. a \<noteq> ''--output'') args)
        in if idx + 1 < length args then Some (args ! (idx + 1)) else None
      else None)"

text \<open>Lines 716-725, the output step: true when it completes without an exception.
  None of its statements is inside a \<^verbatim>\<open>try\<close>.\<close>

definition output_step :: "invocation \<Rightarrow> AuditReport \<Rightarrow> bool" where
  "output_step run report \<longleftrightarrow>
     (if ''--json'' \<in> set (argv run) then print_ok run
      else \<not> markdown_raises report
           \<and> (case output_file_arg (argv run) of
                 Some output_file \<Rightarrow> write_ok run \<and> print_ok run
               | None \<Rightarrow> print_ok run))"

text \<open>\<^verbatim>\<open>main\<close>: the exit status of the process. With fewer than two arguments the usage
  text is printed and the status is 1. An exception that nothing catches (from the banner
  prints, from \<^verbatim>\<open>scan\<close>, or from the output step) ends the interpreter with status 1.
  Otherwise the status is chosen from the findings.\<close>

definition main :: "invocation \<Rightarrow> int" where
  "main run =
     (if length (argv run) < 2 then 1
      else if \<not> print_ok run then 1
      else
        (case fst (scan (world run) (init (path_text run (argv run ! 1)))) of
           Inl e \<Rightarrow> 1
         | Inr report \<Rightarrow>
             if output_step run report then main_exit_code report else 1))"

section \<open>Concrete inputs\<close>

text \<open>A finding of a given severity and a report holding given findings, used to
  evaluate the definitions at concrete inputs.\<close>

definition sample_finding :: "string \<Rightarrow> Severity \<Rightarrow> Finding" where
  "sample_finding i s =
     \<lparr>id' = i, title = ''Sample'', severity = s, category = ''secrets'',
      file_path = ''app.py'', line_number = 1, code_snippet = ''1: x'',
      description = ''d'', recommendation = ''r'', cwe_id = None, owasp_category = None\<rparr>"

definition sample_report :: "Finding list \<Rightarrow> AuditReport" where
  "sample_report fs =
     \<lparr>project_path = ''proj'', scan_time = 0, duration_ms = 0, files_scanned = 1,
      lines_scanned = 1, findings = fs, summary = []\<rparr>"

text \<open>A stand-in for the regular-expression engine. On the lines used below it agrees
  with Python's \<^verbatim>\<open>re\<close> for every pattern of the registry: only the hardcoded-password rule
  matches a line holding \<^verbatim>\<open>password = "..."\<close>, only the eval rule matches a line holding
  \<^verbatim>\<open>eval(...)\<close>. The pattern \<^verbatim>\<open>(\<close> does not compile.\<close>

definition sample_search :: "string \<Rightarrow> string \<Rightarrow> bool" where
  "sample_search p line \<longleftrightarrow>
     (startswith p ''(?i)(password'' \<and> contains (''password = '' @ dqt) line)
     \<or> (startswith p ''eval'' \<and> contains ''eval('' line)"

definition sample_re_compile :: "string \<Rightarrow> (string \<Rightarrow> bool) option" where
  "sample_re_compile p = (if p = ''('' then None else Some (sample_search p))"

definition password_line :: string where
  "password_line = ''password = '' @ dqt @ ''hunter2'' @ dqt"

text \<open>\<^verbatim>\<open>str.lower\<close> on ASCII text, where it maps \<^verbatim>\<open>A-Z\<close> to \<^verbatim>\<open>a-z\<close> and nothing
  else; the manifests used below are ASCII.\<close>

definition ascii_lower_char :: "char \<Rightarrow> char" where
  "ascii_lower_char c =
     (case map_of (zip ''ABCDEFGHIJKLMNOPQRSTUVWXYZ'' ''abcdefghijklmnopqrstuvwxyz'') c of
        Some d \<Rightarrow> d
      | None \<Rightarrow> c)"

definition ascii_lower :: "string \<Rightarrow> string" where
  "ascii_lower s = map ascii_lower_char s"

text \<open>A source file at the project root, given by its name, suffix, lines and parse
  outcome.\<close>

definition sample_file :: "string \<Rightarrow> string \<Rightarrow> string list \<Rightarrow> parse_result \<Rightarrow> source_file" where
  "sample_file name sfx ls p =
     \<lparr>parts = [''proj'', name], rel_path = name, suffix = sfx, text_lines = Some ls,
      parsed = p\<rparr>"

text \<open>A project holding the given \<^verbatim>\<open>.py\<close> and \<^verbatim>\<open>.js\<close> files and the given manifests,
  with the extension set iterated in the given order.\<close>

definition sample_env ::
  "string list \<Rightarrow> source_file list \<Rightarrow> source_file list \<Rightarrow> requirements_file \<Rightarrow> package_file
     \<Rightarrow> environment" where
  "sample_env order py_files js_files req pkg =
     \<lparr>re_compile = sample_re_compile,
      str_lower = ascii_lower,
      ext_order = order,
      rglob = (\<lambda>ext. if ext = ''.py'' then py_files else if ext = ''.js'' then js_files else []),
      requirements_txt = req,
      package_json = pkg,
      clock_start = 0,
      clock_duration_ms = 7\<rparr>"

text \<open>A project with one Python and one JavaScript file, both with findings.\<close>

definition sample_project :: environment where
  "sample_project =
     sample_env extensions
       [sample_file ''a.py'' ''.py'' [''eval(x)'', password_line] (Tree [Assert 3])]
       [sample_file ''b.js'' ''.js'' [''eval(y)''] SyntaxError]
       NoRequirements NoPackageJson"

definition sample_requirements :: requirements_file where
  "sample_requirements =
     Requirements [''Django==1.11'', ''django-filter>=2.0'', ''Flask==0.12'']"

definition sample_package :: package_file where
  "sample_package =
     PackageJson (JObj [(''name'', JStr ''app''),
                        (''devDependencies'', JObj [(''lodash'', JStr ''4.17.0'')])])"

text \<open>A line that the eval rule matches twice and the hardcoded-password rule once:
  \<^verbatim>\<open>eval(password = "x") + eval(y)\<close>.\<close>

definition double_match_line :: string where
  "double_match_line = ''eval(password = '' @ dqt @ ''x'' @ dqt @ '') + eval(y)''"

text \<open>A file of ten lines whose fifth line holds a hardcoded password.\<close>

definition ten_lines :: "string list" where
  "ten_lines =
     [''# line 1'', ''# line 2'', ''# line 3'', ''# line 4'', password_line,
      ''# line 6'', ''# line 7'', ''# line 8'', ''# line 9'', ''# line 10'']"


definition plain_run :: "environment \<Rightarrow> invocation" where
  "plain_run env =
     \<lparr>argv = [''auditor.py'', ''proj''], path_text = (\<lambda>s. s), world = env,
      print_ok = True, write_ok = True\<rparr>"


text \<open>A rule whose pattern does not compile, and an auditor whose registry holds it after
  the built-in rules (\<^verbatim>\<open>auditor.patterns["custom"] = [...]\<close>).\<close>

definition bad_rule :: pattern_def where
  "bad_rule =
     \<lparr>pd_pattern = ''('', pd_title = ''Custom Rule'', pd_severity = LOW, pd_cwe = None,
      pd_owasp = None, pd_description = ''A rule added to the registry.'',
      pd_recommendation = ''None.''\<rparr>"

definition auditor_with_bad_rule :: SecurityAuditor where
  "auditor_with_bad_rule =
     (init ''proj'')\<lparr>patterns := load_security_patterns @ [(''custom'', [bad_rule])]\<rparr>"

text \<open>A project whose \<^verbatim>\<open>requirements.txt\<close> cannot be read as text (bytes that are not
  valid in the default encoding, or a directory of that name), beside one source file.\<close>

definition unreadable_requirements_project :: environment where
  "unreadable_requirements_project =
     sample_env extensions [sample_file ''a.py'' ''.py'' [password_line] (Tree [])] []
       RequirementsUnreadable NoPackageJson"




section \<open>Risk score\<close>

lemma not_isl_projr: "\<not> isl x \<Longrightarrow> x = Inr (projr x)"
  by (cases x) simp_all

lemma weighted_sum_counts:
  "sum_list (map (\<lambda>f. weights (severity f)) fs) =
     25 * count_severity CRITICAL fs + 15 * count_severity HIGH fs
     + 5 * count_severity MEDIUM fs + 2 * count_severity LOW fs
     + 0 * count_severity INFO fs"
proof (induction fs)
  case Nil
  show ?case by (simp add: count_severity_def)
next
  case (Cons f fs)
  then show ?case
    by (cases "severity f") (simp_all add: count_severity_def)
qed

lemma count_severity_nonneg: "0 \<le> count_severity s fs"
  by (simp add: count_severity_def)

text \<open>C3. The risk score is the weighted sum of the per-severity counts (weights 25, 15, 5,
  2, 0, strictly decreasing from CRITICAL to LOW, 0 for INFO) clamped to [0, 100]; it lies
  in [0, 100]; and it does not decrease when the per-severity counts grow.\<close>

theorem risk_score_weighted_clamped:
  "risk_score r =
     max 0 (min 100 (weights CRITICAL * count_severity CRITICAL (findings r)
                   + weights HIGH * count_severity HIGH (findings r)
                   + weights MEDIUM * count_severity MEDIUM (findings r)
                   + weights LOW * count_severity LOW (findings r)
                   + weights INFO * count_severity INFO (findings r)))
   \<and> weights CRITICAL > weights HIGH \<and> weights HIGH > weights MEDIUM
   \<and> weights MEDIUM > weights LOW \<and> weights LOW > weights INFO \<and> weights INFO = 0
   \<and> 0 \<le> risk_score r \<and> risk_score r \<le> 100
   \<and> ((\<forall>s. count_severity s (findings r) \<le> count_severity s (findings r'))
        \<longrightarrow> risk_score r \<le> risk_score r')"
proof -
  let ?c = "\<lambda>s r. count_severity s (findings r)"
  let ?w = "\<lambda>r. 25 * ?c CRITICAL r + 15 * ?c HIGH r + 5 * ?c MEDIUM r + 2 * ?c LOW r"
  have nonneg: "0 \<le> ?w q" for q
    using count_severity_nonneg [of CRITICAL "findings q"]
      count_severity_nonneg [of HIGH "findings q"]
      count_severity_nonneg [of MEDIUM "findings q"]
      count_severity_nonneg [of LOW "findings q"]
    by linarith
  have score: "risk_score q = min 100 (?w q)" for q
  proof (cases "findings q = []")
    case True
    then show ?thesis by (simp add: risk_score_def count_severity_def)
  next
    case False
    then show ?thesis
      by (simp add: risk_score_def weighted_sum_counts)
  qed
  have mono: "risk_score r \<le> risk_score r'"
    if le: "\<forall>s. ?c s r \<le> ?c s r'"
  proof -
    have "?w r \<le> ?w r'"
      using le [rule_format, of CRITICAL] le [rule_format, of HIGH]
        le [rule_format, of MEDIUM] le [rule_format, of LOW]
      by linarith
    then show ?thesis by (simp add: score)
  qed
  have eq: "risk_score r = max 0 (min 100 (?w r))"
    using nonneg [of r] by (simp add: score)
  have bounds: "0 \<le> risk_score r \<and> risk_score r \<le> 100"
    using nonneg [of r] by (simp add: score)
  from eq bounds mono show ?thesis by simp
qed

theorem risk_score_weighted_clamped_witness:
  "(\<forall>s. count_severity s (findings (sample_report [sample_finding ''NF-0001'' HIGH]))
        \<le> count_severity s (findings (sample_report
             [sample_finding ''NF-0002'' CRITICAL, sample_finding ''NF-0001'' HIGH])))
   \<and> risk_score (sample_report [sample_finding ''NF-0001'' HIGH]) = 15
   \<and> risk_score (sample_report
         [sample_finding ''NF-0002'' CRITICAL, sample_finding ''NF-0001'' HIGH]) = 40
   \<and> risk_score (sample_report [sample_finding ''NF-0001'' HIGH])
       \<le> risk_score (sample_report
            [sample_finding ''NF-0002'' CRITICAL, sample_finding ''NF-0001'' HIGH])"
proof -
  let ?r = "sample_report [sample_finding ''NF-0001'' HIGH]"
  let ?r' = "sample_report [sample_finding ''NF-0002'' CRITICAL, sample_finding ''NF-0001'' HIGH]"
  have h: "\<forall>s. count_severity s (findings ?r) \<le> count_severity s (findings ?r')"
    by (simp add: count_severity_def sample_report_def sample_finding_def)
  have a: "risk_score ?r = 15"
    by (simp add: risk_score_def sample_report_def sample_finding_def)
  have b: "risk_score ?r' = 40"
    by (simp add: risk_score_def sample_report_def sample_finding_def)
  from risk_score_weighted_clamped [of ?r ?r'] h a b show ?thesis by simp
qed

section \<open>Exit code\<close>







section \<open>Order of the findings\<close>


lemma severity_order_inj: "severity_order a = severity_order b \<longleftrightarrow> a = b"
  by (cases a; cases b) simp_all

lemma filter_severity_sort_key:
  "filter (\<lambda>f. severity f = s) (sort_key (\<lambda>f. severity_order (severity f)) fs)
     = filter (\<lambda>f. severity f = s) fs"
proof -
  have "filter (\<lambda>f. severity_order (severity f) = severity_order s)
          (sort_key (\<lambda>f. severity_order (severity f)) fs)
        = filter (\<lambda>f. severity_order (severity f) = severity_order s) fs"
    by (rule sort_key_stable)
  then show ?thesis by (simp add: severity_order_inj)
qed

text \<open>C1. The findings of a returned report are sorted by severity rank, CRITICAL first:
  every finding's rank is at most that of the next one. Within a severity the findings
  keep the order in which they were discovered: for each severity, the findings of that
  severity form the same sequence in the report as in the list before the sort.\<close>

theorem scan_findings_sorted_stable:
  assumes "scan env self = (Inr report, self')"
  shows "sorted (map (\<lambda>f. severity_order (severity f)) (findings report))
         \<and> (\<forall>i. Suc i < length (findings report) \<longrightarrow>
               severity_order (severity (findings report ! i))
                 \<le> severity_order (severity (findings report ! Suc i)))
         \<and> (\<exists>counts self2. scan_collect env self = (Inr counts, self2)
               \<and> mset (findings report) = mset (self_findings self2)
               \<and> (\<forall>s. filter (\<lambda>f. severity f = s) (findings report)
                        = filter (\<lambda>f. severity f = s) (self_findings self2)))"
proof -
  obtain res self2 where c: "scan_collect env self = (res, self2)"
    by (cases "scan_collect env self")
  with assms obtain counts where r: "res = Inr counts"
    by (cases res) (auto simp: scan_def)
  obtain n m where nm: "counts = (n, m)" by (cases counts)
  let ?key = "\<lambda>f. severity_order (severity f)"
  from assms c r nm have fr: "findings report = sort_key ?key (self_findings self2)"
    by (auto simp: scan_def Let_def)
  have s: "sorted (map ?key (findings report))"
    unfolding fr by (rule sorted_sort_key)
  have adj: "\<forall>i. Suc i < length (findings report) \<longrightarrow>
               ?key (findings report ! i) \<le> ?key (findings report ! Suc i)"
  proof (intro allI impI)
    fix i assume "Suc i < length (findings report)"
    with s show "?key (findings report ! i) \<le> ?key (findings report ! Suc i)"
      using sorted_nth_mono [of "map ?key (findings report)" i "Suc i"] by simp
  qed
  have st: "\<forall>s. filter (\<lambda>f. severity f = s) (findings report)
                 = filter (\<lambda>f. severity f = s) (self_findings self2)"
    unfolding fr by (simp add: filter_severity_sort_key)
  have ms: "mset (findings report) = mset (self_findings self2)"
    unfolding fr by simp
  from s adj st ms c r show ?thesis by blast
qed

theorem scan_findings_sorted_stable_witness:
  "\<not> isl (fst (scan sample_project (init ''proj'')))
   \<and> map (\<lambda>f. (id' f, severity f)) (self_findings (snd (scan_collect sample_project (init ''proj''))))
       = [(''NF-0001'', CRITICAL), (''NF-0002'', HIGH), (''NF-0003'', LOW), (''NF-0004'', HIGH)]
   \<and> map (\<lambda>f. (id' f, severity f)) (findings (projr (fst (scan sample_project (init ''proj'')))))
       = [(''NF-0001'', CRITICAL), (''NF-0002'', HIGH), (''NF-0004'', HIGH), (''NF-0003'', LOW)]
   \<and> sorted (map (\<lambda>f. severity_order (severity f))
        (findings (projr (fst (scan sample_project (init ''proj''))))))"
proof -
  let ?res = "scan sample_project (init ''proj'')"
  have ok: "\<not> isl (fst ?res)" by code_simp
  have d: "map (\<lambda>f. (id' f, severity f)) (self_findings (snd (scan_collect sample_project (init ''proj''))))
       = [(''NF-0001'', CRITICAL), (''NF-0002'', HIGH), (''NF-0003'', LOW), (''NF-0004'', HIGH)]"
    by code_simp
  have ev: "map (\<lambda>f. (id' f, severity f)) (findings (projr (fst ?res)))
       = [(''NF-0001'', CRITICAL), (''NF-0002'', HIGH), (''NF-0004'', HIGH), (''NF-0003'', LOW)]"
    by code_simp
  have h: "?res = (Inr (projr (fst ?res)), snd ?res)"
    using not_isl_projr [OF ok] by (metis prod.collapse)
  from scan_findings_sorted_stable [OF h]
  have "sorted (map (\<lambda>f. severity_order (severity f)) (findings (projr (fst ?res))))"
    by blast
  with ok d ev show ?thesis by blast
qed

section \<open>Dependency findings\<close>


lemma check_package_step:
  "check_package lw ls (vp, t, s) (fs, c) =
     (if mentions lw ls vp then
        (fs @ [\<lparr>id' = fst (generate_finding_id c), title = t, severity = s,
                 category = ''dependencies'', file_path = ''requirements.txt'',
                 line_number = 1, code_snippet = ''Check requirements.txt'',
                 description = ''Potentially vulnerable dependency: '' @ vp,
                 recommendation = ''Update to the latest secure version.'',
                 cwe_id = Some ''CWE-1104'', owasp_category = Some ''A06:2021''\<rparr>],
         Suc c)
      else (fs, c))"
  by (simp add: check_package_def generate_finding_id_def Let_def)

lemma check_package_fold:
  "fold (check_package lw ls) es (fs, c) = (fs', c') \<Longrightarrow>
     map description fs' = map description fs
        @ map (\<lambda>e. ''Potentially vulnerable dependency: '' @ fst e)
            (filter (\<lambda>e. mentions lw ls (fst e)) es)
     \<and> (\<forall>f \<in> set fs'. f \<in> set fs \<or>
           (line_number f = 1 \<and> file_path f = ''requirements.txt''
            \<and> category f = ''dependencies''))"
proof (induction es arbitrary: fs c)
  case Nil
  then show ?case by simp
next
  case (Cons e es)
  obtain vp t s where e: "e = (vp, t, s)" by (cases e)
  show ?case
  proof (cases "mentions lw ls vp")
    case True
    define g where "g = \<lparr>id' = fst (generate_finding_id c), title = t, severity = s,
                 category = ''dependencies'', file_path = ''requirements.txt'',
                 line_number = 1, code_snippet = ''Check requirements.txt'',
                 description = ''Potentially vulnerable dependency: '' @ vp,
                 recommendation = ''Update to the latest secure version.'',
                 cwe_id = Some ''CWE-1104'', owasp_category = Some ''A06:2021''\<rparr>"
    have g: "description g = ''Potentially vulnerable dependency: '' @ vp"
        "line_number g = 1" "file_path g = ''requirements.txt''" "category g = ''dependencies''"
      by (simp_all add: g_def)
    from Cons.prems e True have step: "fold (check_package lw ls) es (fs @ [g], Suc c) = (fs', c')"
      by (simp add: check_package_step g_def)
    from Cons.IH [OF step] g True e show ?thesis by auto
  next
    case False
    with Cons.prems e have step: "fold (check_package lw ls) es (fs, c) = (fs', c')"
      by (simp add: check_package_step)
    from Cons.IH [OF step] False e show ?thesis by simp
  qed
qed

lemma filter_fst_distinct:
  "distinct (map fst es) \<Longrightarrow> e \<in> set es \<Longrightarrow> filter (\<lambda>x. fst x = fst e) es = [e]"
proof (induction es)
  case Nil
  then show ?case by simp
next
  case (Cons x es)
  show ?case
  proof (cases "x = e")
    case True
    with Cons.prems have "\<forall>y \<in> set es. fst y \<noteq> fst e" by (auto simp: image_iff)
    then have "filter (\<lambda>x. fst x = fst e) es = []" by (simp add: filter_empty_conv)
    with True show ?thesis by simp
  next
    case False
    with Cons.prems have "e \<in> set es" "fst x \<noteq> fst e" by (auto simp: image_iff)
    with Cons show ?thesis by simp
  qed
qed

lemma count_mentions:
  assumes d: "distinct (map fst es)" and e: "e \<in> set es"
  shows "length (filter (\<lambda>d. d = p @ fst e) (map (\<lambda>e. p @ fst e) (filter (\<lambda>e. mentions lw ls (fst e)) es)))
         = (if mentions lw ls (fst e) then 1 else 0)"
proof -
  have "filter (\<lambda>d. d = p @ fst e) (map (\<lambda>e. p @ fst e) (filter (\<lambda>e. mentions lw ls (fst e)) es))
        = map (\<lambda>e. p @ fst e) (filter (\<lambda>x. mentions lw ls (fst x)) (filter (\<lambda>x. fst x = fst e) es))"
    by (simp add: filter_map comp_def conj_commute)
  also have "\<dots> = map (\<lambda>e. p @ fst e) (filter (\<lambda>x. mentions lw ls (fst x)) [e])"
    by (simp add: filter_fst_distinct [OF d e])
  finally show ?thesis by simp
qed

lemma scan_package_json_append:
  "scan_package_json pkg (fs, c) = (fs @ fst (scan_package_json pkg ([], c)), snd (scan_package_json pkg ([], c)))"
  by (simp add: scan_package_json_def generate_finding_id_def Let_def
      split: package_file.splits option.splits)

lemma scan_package_json_props:
  "scan_package_json pkg ([], c) = (fs, c') \<Longrightarrow>
     length fs \<le> 1
     \<and> (\<forall>f \<in> set fs. line_number f = 1 \<and> file_path f = ''package.json''
           \<and> category f = ''dependencies''
           \<and> description f = ''Lodash has had multiple CVEs. Ensure version is current.'')"
  by (auto simp: scan_package_json_def generate_finding_id_def Let_def
      split: package_file.splits option.splits if_splits)


lemma scan_requirements_props:
  assumes "scan_requirements lw req ([], c) = (Inr fs, c')"
  shows "(\<forall>f \<in> set fs. line_number f = 1 \<and> file_path f = ''requirements.txt''
            \<and> category f = ''dependencies'')
         \<and> map description fs =
              (case req of
                 Requirements ls \<Rightarrow>
                   map (\<lambda>e. ''Potentially vulnerable dependency: '' @ fst e)
                     (filter (\<lambda>e. mentions lw ls (fst e)) vulnerable_packages)
               | _ \<Rightarrow> [])"
proof (cases req)
  case NoRequirements
  with assms show ?thesis by (simp add: scan_requirements_def)
next
  case RequirementsUnreadable
  with assms show ?thesis by (simp add: scan_requirements_def)
next
  case (Requirements ls)
  with assms have "fold (check_package lw ls) vulnerable_packages ([], c) = (fs, c')"
    by (simp add: scan_requirements_def split: prod.splits)
  from check_package_fold [OF this] Requirements show ?thesis by simp
qed

lemma distinct_vulnerable_packages: "distinct (map fst vulnerable_packages)"
  by (simp add: vulnerable_packages_def)

text \<open>C10. The findings of the dependency scanner are those of the
  \<^verbatim>\<open>requirements.txt\<close> block followed by those of the \<^verbatim>\<open>package.json\<close> block; each has
  line number 1 and the path of its own manifest. Each entry of the table of vulnerable
  packages yields at most one finding, and exactly one when some line of the manifest
  mentions it, however many lines do. A \<^verbatim>\<open>package.json\<close> that cannot be read, parsed or
  merged yields no finding and no exception.\<close>

theorem scan_dependencies_findings:
  assumes "scan_dependencies lw req pkg counter = (Inr fs, counter')"
  shows "\<exists>fs_req fs_pkg c1.
           fs = fs_req @ fs_pkg
         \<and> scan_requirements lw req ([], counter) = (Inr fs_req, c1)
         \<and> scan_package_json pkg ([], c1) = (fs_pkg, counter')
         \<and> (\<forall>f \<in> set fs_req. line_number f = 1 \<and> file_path f = ''requirements.txt''
               \<and> category f = ''dependencies'')
         \<and> (\<forall>f \<in> set fs_pkg. line_number f = 1 \<and> file_path f = ''package.json''
               \<and> category f = ''dependencies'')
         \<and> (\<forall>e \<in> set vulnerable_packages.
               length (filter (\<lambda>f. description f = ''Potentially vulnerable dependency: '' @ fst e) fs)
                 \<le> 1)
         \<and> (\<forall>ls. req = Requirements ls \<longrightarrow>
               (\<forall>e \<in> set vulnerable_packages.
                  length (filter (\<lambda>f. description f = ''Potentially vulnerable dependency: '' @ fst e) fs)
                    = (if mentions lw ls (fst e) then 1 else 0)))
         \<and> length fs_pkg \<le> 1
         \<and> ((pkg = PackageMalformed \<or> (\<exists>j. pkg = PackageJson j \<and> merged_deps j = None))
               \<longrightarrow> fs_pkg = [])"
proof -
  let ?P = "''Potentially vulnerable dependency: ''"
  obtain r c1 where sr: "scan_requirements lw req ([], counter) = (r, c1)"
    by (cases "scan_requirements lw req ([], counter)")
  with assms obtain fs_req where r: "r = Inr fs_req"
    by (cases r) (auto simp: scan_dependencies_def)
  obtain fs_pkg c2 where sp: "scan_package_json pkg ([], c1) = (fs_pkg, c2)"
    by (cases "scan_package_json pkg ([], c1)")
  have "scan_package_json pkg (fs_req, c1) = (fs_req @ fs_pkg, c2)"
    using scan_package_json_append [of pkg fs_req c1] sp by simp
  with assms sr r have fs: "fs = fs_req @ fs_pkg" and c2: "c2 = counter'"
    by (auto simp: scan_dependencies_def)
  note rq = scan_requirements_props [OF sr [unfolded r]]
  note pk = scan_package_json_props [OF sp]
  have nolodash: "filter (\<lambda>f. description f = ?P @ v) fs_pkg = []" for v
    using pk by (auto simp: filter_empty_conv)
  have cnt: "length (filter (\<lambda>f. description f = ?P @ v) fs)
             = length (filter (\<lambda>d. d = ?P @ v) (map description fs_req))" for v
    unfolding fs filter_append nolodash
    by (simp add: filter_map comp_def)
  have exact: "length (filter (\<lambda>f. description f = ?P @ fst e) fs)
                 = (if mentions lw ls (fst e) then 1 else 0)"
    if "req = Requirements ls" "e \<in> set vulnerable_packages" for ls e
  proof -
    from rq that(1) have "map description fs_req =
        map (\<lambda>e. ?P @ fst e) (filter (\<lambda>e. mentions lw ls (fst e)) vulnerable_packages)"
      by simp
    then show ?thesis
      unfolding cnt
      using count_mentions [OF distinct_vulnerable_packages that(2), where p = "?P" and ls = ls and lw = lw] by simp
  qed
  have atmost: "length (filter (\<lambda>f. description f = ?P @ fst e) fs) \<le> 1"
    if "e \<in> set vulnerable_packages" for e
  proof (cases req)
    case (Requirements ls)
    from exact [OF this that] show ?thesis by simp
  next
    case NoRequirements
    with rq have "fs_req = []" by simp
    then show ?thesis unfolding cnt by simp
  next
    case RequirementsUnreadable
    with rq have "fs_req = []" by simp
    then show ?thesis unfolding cnt by simp
  qed
  have mal: "fs_pkg = []"
    if "pkg = PackageMalformed \<or> (\<exists>j. pkg = PackageJson j \<and> merged_deps j = None)"
    using that sp by (auto simp: scan_package_json_def)
  from fs sr r sp c2 rq pk exact atmost mal show ?thesis
    by (intro exI [of _ fs_req] exI [of _ fs_pkg] exI [of _ c1]) (simp only: simp_thms, blast)
qed

theorem scan_dependencies_findings_witness:
  "\<not> isl (fst (scan_dependencies ascii_lower sample_requirements PackageMalformed 0))
   \<and> \<not> isl (fst (scan_dependencies ascii_lower sample_requirements sample_package 0))
   \<and> map (\<lambda>f. (file_path f, line_number f))
        (projr (fst (scan_dependencies ascii_lower sample_requirements sample_package 0)))
       = [(''requirements.txt'', 1), (''requirements.txt'', 1), (''package.json'', 1)]
   \<and> map (\<lambda>f. (file_path f, line_number f))
        (projr (fst (scan_dependencies ascii_lower sample_requirements PackageMalformed 0)))
       = [(''requirements.txt'', 1), (''requirements.txt'', 1)]
   \<and> mentions ascii_lower [''Django==1.11'', ''django-filter>=2.0'', ''Flask==0.12''] ''django<3.2''
   \<and> length (filter (\<lambda>f. description f = ''Potentially vulnerable dependency: django<3.2'')
        (projr (fst (scan_dependencies ascii_lower sample_requirements PackageMalformed 0)))) = 1"
proof -
  let ?a = "scan_dependencies ascii_lower sample_requirements PackageMalformed 0"
  let ?b = "scan_dependencies ascii_lower sample_requirements sample_package 0"
  let ?ls = "[''Django==1.11'', ''django-filter>=2.0'', ''Flask==0.12'']"
  have oka: "\<not> isl (fst ?a)" by code_simp
  have okb: "\<not> isl (fst ?b)" by code_simp
  have eva: "map (\<lambda>f. (file_path f, line_number f)) (projr (fst ?a))
       = [(''requirements.txt'', 1), (''requirements.txt'', 1)]" by code_simp
  have evb: "map (\<lambda>f. (file_path f, line_number f)) (projr (fst ?b))
       = [(''requirements.txt'', 1), (''requirements.txt'', 1), (''package.json'', 1)]"
    by code_simp
  have m: "mentions ascii_lower ?ls ''django<3.2''" by code_simp
  have e: "(''django<3.2'', ''Django Security Update Required'', HIGH) \<in> set vulnerable_packages"
    by (simp add: vulnerable_packages_def)
  have ha: "?a = (Inr (projr (fst ?a)), snd ?a)"
    using not_isl_projr [OF oka] by (metis prod.collapse)
  from scan_dependencies_findings [OF ha]
  have "\<forall>ls. sample_requirements = Requirements ls \<longrightarrow>
               (\<forall>e \<in> set vulnerable_packages.
                  length (filter (\<lambda>f. description f = ''Potentially vulnerable dependency: '' @ fst e)
                     (projr (fst ?a)))
                    = (if mentions ascii_lower ls (fst e) then 1 else 0))"
    by blast
  then have "length (filter (\<lambda>f. description f = ''Potentially vulnerable dependency: '' @ ''django<3.2'')
        (projr (fst ?a))) = (if mentions ascii_lower ?ls ''django<3.2'' then 1 else 0)"
    using e by (fastforce simp: sample_requirements_def)
  with m have "length (filter (\<lambda>f. description f = ''Potentially vulnerable dependency: django<3.2'')
        (projr (fst ?a))) = 1" by simp
  with oka okb eva evb m show ?thesis by blast
qed

section \<open>Findings of the pattern loops\<close>

lemma scan_line_step:
  "scan_line search cat pd rel lines (i, line) (fs, c) =
     (if search line then
        (fs @ [\<lparr>id' = fst (generate_finding_id c), title = pd_title pd,
                 severity = pd_severity pd, category = cat, file_path = rel,
                 line_number = i, code_snippet = context_snippet lines i,
                 description = pd_description pd, recommendation = pd_recommendation pd,
                 cwe_id = pd_cwe pd, owasp_category = pd_owasp pd\<rparr>],
         Suc c)
      else (fs, c))"
  by (simp add: scan_line_def generate_finding_id_def Let_def)

lemma scan_line_fold:
  "fold (scan_line search cat pd rel lines) ils (fs, c) = (fs', c') \<Longrightarrow>
     map (\<lambda>f. (category f, title f, severity f, line_number f)) fs'
       = map (\<lambda>f. (category f, title f, severity f, line_number f)) fs
         @ map (\<lambda>il. (cat, pd_title pd, pd_severity pd, fst il))
             (filter (\<lambda>il. search (snd il)) ils)"
proof (induction ils arbitrary: fs c)
  case Nil
  then show ?case by simp
next
  case (Cons il ils)
  obtain i line where il: "il = (i, line)" by (cases il)
  show ?case
  proof (cases "search line")
    case True
    with Cons.prems il obtain g where
      step: "fold (scan_line search cat pd rel lines) ils (fs @ [g], Suc c) = (fs', c')"
      and g: "(category g, title g, severity g, line_number g)
               = (cat, pd_title pd, pd_severity pd, i)"
      by (simp add: scan_line_step)
    from Cons.IH [OF step] g True il show ?thesis by simp
  next
    case False
    with Cons.prems il have
      step: "fold (scan_line search cat pd rel lines) ils (fs, c) = (fs', c')"
      by (simp add: scan_line_step)
    from Cons.IH [OF step] False il show ?thesis by simp
  qed
qed

lemma scan_rules_origin:
  "scan_rules re rel lines cat pds (fs, c) = (Inr fs', c') \<Longrightarrow>
     map (\<lambda>f. (category f, title f, severity f, line_number f)) fs'
       = map (\<lambda>f. (category f, title f, severity f, line_number f)) fs
         @ concat (map (\<lambda>pd. map (\<lambda>il. (cat, pd_title pd, pd_severity pd, fst il))
                      (filter (\<lambda>il. rule_matches re pd (snd il)) (enumerate' 1 lines))) pds)"
proof (induction pds arbitrary: fs c)
  case Nil
  then show ?case by simp
next
  case (Cons pd pds)
  from Cons.prems obtain search where re: "re (pd_pattern pd) = Some search"
    by (cases "re (pd_pattern pd)") simp_all
  obtain fs1 c1 where
    f: "fold (scan_line search cat pd rel lines) (enumerate' 1 lines) (fs, c) = (fs1, c1)"
    by (cases "fold (scan_line search cat pd rel lines) (enumerate' 1 lines) (fs, c)")
  with Cons.prems re have rest: "scan_rules re rel lines cat pds (fs1, c1) = (Inr fs', c')"
    by simp
  have m: "rule_matches re pd = search"
    by (rule ext) (simp add: rule_matches_def re)
  from scan_line_fold [OF f] Cons.IH [OF rest] show ?case
    by (simp add: m)
qed

lemma scan_categories_origin:
  "scan_categories re rel lines pats (fs, c) = (Inr fs', c') \<Longrightarrow>
     map (\<lambda>f. (category f, title f, severity f, line_number f)) fs'
       = map (\<lambda>f. (category f, title f, severity f, line_number f)) fs
         @ concat (map (\<lambda>(cat, pd). map (\<lambda>il. (cat, pd_title pd, pd_severity pd, fst il))
                      (filter (\<lambda>il. rule_matches re pd (snd il)) (enumerate' 1 lines)))
                    (all_rules pats))"
proof (induction pats arbitrary: fs c)
  case Nil
  then show ?case by (simp add: all_rules_def)
next
  case (Cons p pats)
  obtain cat pds where p: "p = (cat, pds)" by (cases p)
  obtain r c1 where sr: "scan_rules re rel lines cat pds (fs, c) = (r, c1)"
    by (cases "scan_rules re rel lines cat pds (fs, c)")
  with Cons.prems p obtain fs1 where r: "r = Inr fs1"
    by (cases r) simp_all
  with Cons.prems p sr have rest: "scan_categories re rel lines pats (fs1, c1) = (Inr fs', c')"
    by simp
  have split: "all_rules (p # pats) = map (Pair cat) pds @ all_rules pats"
    by (simp add: all_rules_def p)
  from scan_rules_origin [OF sr [unfolded r]] Cons.IH [OF rest] show ?case
    by (simp add: split comp_def)
qed

lemma enumerate_fst_range:
  "il \<in> set (enumerate' k ls) \<Longrightarrow> k \<le> fst il \<and> fst il < k + int (length ls)"
proof (induction ls arbitrary: k)
  case Nil
  then show ?case by simp
next
  case (Cons l ls)
  from Cons.prems have "il = (k, l) \<or> il \<in> set (enumerate' (k + 1) ls)" by simp
  then show ?case
  proof
    assume "il = (k, l)"
    then show ?thesis by simp
  next
    assume "il \<in> set (enumerate' (k + 1) ls)"
    from Cons.IH [OF this] show ?thesis by simp
  qed
qed

lemma filter_enumerate_index:
  "k \<le> i \<Longrightarrow> i < k + int (length ls) \<Longrightarrow>
     filter (\<lambda>il. fst il = i) (enumerate' k ls) = [(i, ls ! nat (i - k))]"
proof (induction ls arbitrary: k)
  case Nil
  then show ?case by simp
next
  case (Cons l ls)
  show ?case
  proof (cases "i = k")
    case True
    have "\<forall>il \<in> set (enumerate' (k + 1) ls). fst il \<noteq> k"
      using enumerate_fst_range [of _ "k + 1" ls] by fastforce
    then have "filter (\<lambda>il. fst il = k) (enumerate' (k + 1) ls) = []"
      by (simp add: filter_empty_conv)
    with True show ?thesis by simp
  next
    case False
    with Cons.prems have k: "k + 1 \<le> i" "i < (k + 1) + int (length ls)" by simp_all
    have "nat (i - k) = Suc (nat (i - (k + 1)))" using k by simp
    with Cons.IH [OF k] False show ?thesis by simp
  qed
qed

lemma filter_line_block:
  assumes "1 \<le> i" "i \<le> int (length lines)"
  shows "filter (\<lambda>x. snd (snd (snd x)) = i)
           (map (\<lambda>il. (cat, t, s, fst il)) (filter (\<lambda>il. P (snd il)) (enumerate' 1 lines)))
         = (if P (lines ! nat (i - 1)) then [(cat, t, s, i)] else [])"
proof -
  have "filter (\<lambda>x. snd (snd (snd x)) = i)
           (map (\<lambda>il. (cat, t, s, fst il)) (filter (\<lambda>il. P (snd il)) (enumerate' 1 lines)))
        = map (\<lambda>il. (cat, t, s, fst il))
            (filter (\<lambda>il. P (snd il)) (filter (\<lambda>il. fst il = i) (enumerate' 1 lines)))"
    by (simp add: filter_map comp_def conj_commute)
  also have "filter (\<lambda>il. fst il = i) (enumerate' 1 lines) = [(i, lines ! nat (i - 1))]"
    using assms by (intro filter_enumerate_index) simp_all
  finally show ?thesis by simp
qed

lemma concat_map_if_singleton:
  "concat (map (\<lambda>x. if P x then [g x] else []) xs) = map g (filter P xs)"
  by (induction xs) simp_all

text \<open>C8. When the pattern loops of \<^verbatim>\<open>scan_file\<close> complete, the findings on line \<open>i\<close>
  are, in order, one for each rule of the registry whose pattern finds a match in that
  line, carrying that rule's category, title and severity. So \<open>k\<close> rules matching the
  line give \<open>k\<close> findings, and one rule gives one finding however often its pattern occurs
  in the line: the loop only asks \<^verbatim>\<open>regex.search(line)\<close> whether there is a match.\<close>

theorem scan_categories_one_finding_per_rule_and_line:
  assumes "scan_categories re rel lines pats ([], counter) = (Inr fs, counter')"
    and "1 \<le> i" and "i \<le> int (length lines)"
  shows "map (\<lambda>f. (category f, title f, severity f)) (filter (\<lambda>f. line_number f = i) fs)
           = map (\<lambda>(cat, pd). (cat, pd_title pd, pd_severity pd))
               (filter (\<lambda>(cat, pd). rule_matches re pd (lines ! nat (i - 1))) (all_rules pats))
         \<and> length (filter (\<lambda>f. line_number f = i) fs)
           = length (filter (\<lambda>(cat, pd). rule_matches re pd (lines ! nat (i - 1))) (all_rules pats))"
proof -
  let ?o = "\<lambda>f. (category f, title f, severity f, line_number f)"
  let ?blk = "\<lambda>(cat, pd). map (\<lambda>il. (cat, pd_title pd, pd_severity pd, fst il))
                      (filter (\<lambda>il. rule_matches re pd (snd il)) (enumerate' 1 lines))"
  let ?m = "\<lambda>(cat, pd). rule_matches re pd (lines ! nat (i - 1))"
  from scan_categories_origin [OF assms(1)]
  have o: "map ?o fs = concat (map ?blk (all_rules pats))" by simp
  have "map ?o (filter (\<lambda>f. line_number f = i) fs)
        = filter (\<lambda>x. snd (snd (snd x)) = i) (map ?o fs)"
    by (simp add: filter_map comp_def)
  also have "\<dots> = concat (map (\<lambda>cp. filter (\<lambda>x. snd (snd (snd x)) = i) (?blk cp)) (all_rules pats))"
    unfolding o by (simp add: filter_concat comp_def)
  also have "\<dots> = concat (map (\<lambda>cp. if ?m cp then [(fst cp, pd_title (snd cp), pd_severity (snd cp), i)] else [])
                        (all_rules pats))"
    by (rule arg_cong [where f = concat], rule map_cong [OF refl])
       (auto simp: filter_line_block [OF assms(2,3)] split: prod.splits)
  also have "\<dots> = map (\<lambda>cp. (fst cp, pd_title (snd cp), pd_severity (snd cp), i)) (filter ?m (all_rules pats))"
    by (rule concat_map_if_singleton)
  finally have full: "map ?o (filter (\<lambda>f. line_number f = i) fs)
      = map (\<lambda>cp. (fst cp, pd_title (snd cp), pd_severity (snd cp), i)) (filter ?m (all_rules pats))" .
  have "map (\<lambda>f. (category f, title f, severity f)) (filter (\<lambda>f. line_number f = i) fs)
        = map (\<lambda>x. (fst x, fst (snd x), fst (snd (snd x)))) (map ?o (filter (\<lambda>f. line_number f = i) fs))"
    by (simp add: comp_def)
  also have "\<dots> = map (\<lambda>(cat, pd). (cat, pd_title pd, pd_severity pd)) (filter ?m (all_rules pats))"
    unfolding full by (simp add: comp_def case_prod_beta)
  finally have a: "map (\<lambda>f. (category f, title f, severity f)) (filter (\<lambda>f. line_number f = i) fs)
           = map (\<lambda>(cat, pd). (cat, pd_title pd, pd_severity pd)) (filter ?m (all_rules pats))" .
  from arg_cong [OF a, of length] have b: "length (filter (\<lambda>f. line_number f = i) fs)
           = length (filter ?m (all_rules pats))" by simp
  from a b show ?thesis by simp
qed

theorem scan_categories_one_finding_per_rule_and_line_witness:
  "\<not> isl (fst (scan_categories sample_re_compile ''a.py'' [''x = 1'', double_match_line]
                 load_security_patterns ([], 0)))
   \<and> (1::int) \<le> 2 \<and> (2::int) \<le> int (length [''x = 1'', double_match_line])
   \<and> map (\<lambda>f. (category f, title f, severity f))
        (filter (\<lambda>f. line_number f = 2)
           (projr (fst (scan_categories sample_re_compile ''a.py'' [''x = 1'', double_match_line]
                          load_security_patterns ([], 0)))))
       = [(''secrets'', ''Hardcoded Password'', CRITICAL),
          (''injection'', ''Dangerous eval() Usage'', HIGH)]
   \<and> length (filter (\<lambda>f. line_number f = 2)
           (projr (fst (scan_categories sample_re_compile ''a.py'' [''x = 1'', double_match_line]
                          load_security_patterns ([], 0))))) = 2"
proof -
  let ?ls = "[''x = 1'', double_match_line]"
  let ?res = "scan_categories sample_re_compile ''a.py'' ?ls load_security_patterns ([], 0)"
  have ok: "\<not> isl (fst ?res)" by code_simp
  have h: "?res = (Inr (projr (fst ?res)), snd ?res)"
    using not_isl_projr [OF ok] by (metis prod.collapse)
  have i1: "(1::int) \<le> 2" by simp
  have i2: "(2::int) \<le> int (length ?ls)" by simp
  have rules: "map (\<lambda>(cat, pd). (cat, pd_title pd, pd_severity pd))
       (filter (\<lambda>(cat, pd). rule_matches sample_re_compile pd (?ls ! nat (2 - 1)))
          (all_rules load_security_patterns))
      = [(''secrets'', ''Hardcoded Password'', CRITICAL),
         (''injection'', ''Dangerous eval() Usage'', HIGH)]"
    by code_simp
  from scan_categories_one_finding_per_rule_and_line [OF h i1 i2] rules
  have a: "map (\<lambda>f. (category f, title f, severity f))
          (filter (\<lambda>f. line_number f = 2) (projr (fst ?res)))
        = [(''secrets'', ''Hardcoded Password'', CRITICAL),
           (''injection'', ''Dangerous eval() Usage'', HIGH)]" by simp
  have b: "length (filter (\<lambda>f. line_number f = 2) (projr (fst ?res))) = 2"
    using arg_cong [OF a, of length] by simp
  from a b ok i1 i2 show ?thesis by blast
qed

section \<open>Context window of a match\<close>

text \<open>The window of \<open>context_snippet\<close> in 1-indexed line numbers: from two lines
  before the match to two lines after it, within the file.\<close>

lemma context_snippet_window:
  "context_snippet lines i =
     join newline (map (\<lambda>j. str_int j @ '': '' @ lines ! nat (j - 1))
       [max 1 (i - 2) .. min (int (length lines)) (i + 2)])"
proof -
  have "max 0 (i - 3) + 1 = max 1 (i - 2)" by simp
  then show ?thesis by (simp add: context_snippet_def Let_def)
qed

text \<open>C6. In a file of ten lines with a match on line 5, the snippet of the finding holds
  lines 3 to 7, while the window of the specification, \<open>[i - 3, i + 2]\<close> clamped to the
  file, holds lines 2 to 7.\<close>

theorem context_snippet_starts_two_lines_before:
  "map (\<lambda>f. (line_number f, code_snippet f))
     (projr (fst (scan_file sample_re_compile load_security_patterns
                    (sample_file ''app.js'' ''.js'' ten_lines SyntaxError) 0)))
     = [(5, ''3: # line 3'' @ newline @ ''4: # line 4'' @ newline @ ''5: '' @ password_line
            @ newline @ ''6: # line 6'' @ newline @ ''7: # line 7'')]
   \<and> spec_context_snippet ten_lines 5
     = ''2: # line 2'' @ newline @ ''3: # line 3'' @ newline @ ''4: # line 4'' @ newline
       @ ''5: '' @ password_line @ newline @ ''6: # line 6'' @ newline @ ''7: # line 7''
   \<and> context_snippet ten_lines 5 \<noteq> spec_context_snippet ten_lines 5"
  by code_simp

section \<open>A pattern that does not compile\<close>

lemma scan_rules_error:
  "scan_rules re rel lines cat pds (fs, c) = (Inl e, c') \<Longrightarrow> e = RegexError"
proof (induction pds arbitrary: fs c)
  case Nil
  then show ?case by simp
next
  case (Cons pd pds)
  show ?case
  proof (cases "re (pd_pattern pd)")
    case None
    with Cons.prems show ?thesis by simp
  next
    case (Some search)
    obtain fs1 c1 where
      f: "fold (scan_line search cat pd rel lines) (enumerate' 1 lines) (fs, c) = (fs1, c1)"
      by (cases "fold (scan_line search cat pd rel lines) (enumerate' 1 lines) (fs, c)")
    with Cons.prems Some have "scan_rules re rel lines cat pds (fs1, c1) = (Inl e, c')"
      by simp
    then show ?thesis by (rule Cons.IH)
  qed
qed

lemma scan_rules_uncompilable:
  "pd \<in> set pds \<Longrightarrow> re (pd_pattern pd) = None \<Longrightarrow>
     \<exists>c'. scan_rules re rel lines cat pds (fs, c) = (Inl RegexError, c')"
proof (induction pds arbitrary: fs c)
  case Nil
  then show ?case by simp
next
  case (Cons q pds)
  show ?case
  proof (cases "re (pd_pattern q)")
    case None
    then show ?thesis by simp
  next
    case (Some search)
    with Cons.prems have "pd \<in> set pds" by auto
    from Cons.IH [OF this Cons.prems(2)] Some show ?thesis
      by (cases "fold (scan_line search cat q rel lines) (enumerate' 1 lines) (fs, c)") simp
  qed
qed

lemma scan_categories_uncompilable:
  "(cat, pd) \<in> set (all_rules pats) \<Longrightarrow> re (pd_pattern pd) = None \<Longrightarrow>
     \<exists>c'. scan_categories re rel lines pats (fs, c) = (Inl RegexError, c')"
proof (induction pats arbitrary: fs c)
  case Nil
  then show ?case by (simp add: all_rules_def)
next
  case (Cons p pats)
  obtain cat0 pds0 where p: "p = (cat0, pds0)" by (cases p)
  obtain r c1 where sr: "scan_rules re rel lines cat0 pds0 (fs, c) = (r, c1)"
    by (cases "scan_rules re rel lines cat0 pds0 (fs, c)")
  show ?case
  proof (cases r)
    case (Inl e)
    with sr have "e = RegexError" by (auto dest: scan_rules_error)
    with Inl sr p show ?thesis by simp
  next
    case (Inr fs1)
    have "pd \<notin> set pds0"
    proof
      assume "pd \<in> set pds0"
      from scan_rules_uncompilable [where re = re and rel = rel and lines = lines and cat = cat0
          and fs = fs and c = c, OF this Cons.prems(2)] sr Inr
      show False by simp
    qed
    with Cons.prems(1) p have "(cat, pd) \<in> set (all_rules pats)"
      by (auto simp: all_rules_def)
    from Cons.IH [OF this Cons.prems(2), of fs1 c1] sr Inr p show ?thesis by simp
  qed
qed

lemma scan_file_uncompilable:
  assumes "(cat, pd) \<in> set (all_rules pats)" "re (pd_pattern pd) = None"
    and "text_lines file = Some ls"
  shows "\<exists>c'. scan_file re pats file c = (Inl RegexError, c')"
proof -
  from scan_categories_uncompilable [where re = re and rel = "rel_path file" and lines = ls
      and fs = "[]" and c = c, OF assms(1,2)]
  obtain c' where "scan_categories re (rel_path file) ls pats ([], c) = (Inl RegexError, c')"
    by blast
  with assms(3) show ?thesis by (simp add: scan_file_def)
qed

lemma scan_path_uncompilable:
  assumes "(cat, pd) \<in> set (all_rules (patterns self))" "re (pd_pattern pd) = None"
  shows "\<exists>c'. scan_path re f (self, n, m) =
           (self\<lparr>finding_counter := c'\<rparr>,
            n + (if counted f then 1 else 0),
            m + (if counted f then line_count f else 0))"
proof (cases "counted f")
  case False
  then have "scan_path re f (self, n, m) = (self, n, m)"
    by (auto simp: scan_path_def counted_def split: option.splits)
  with False show ?thesis
    by (intro exI [of _ "finding_counter self"]) simp
next
  case True
  then obtain ls where ls: "text_lines f = Some ls"
    and ex: "\<not> list_ex (\<lambda>part. part \<in> set (parts f)) excluded_parts"
    by (auto simp: counted_def)
  from scan_file_uncompilable [where re = re and c = "finding_counter self", OF assms ls]
  obtain c' where "scan_file re (patterns self) f (finding_counter self) = (Inl RegexError, c')"
    by blast
  with ls ex True show ?thesis
    by (intro exI [of _ c']) (simp add: scan_path_def line_count_def Let_def add.commute)
qed

lemma scan_paths_uncompilable:
  assumes "(cat, pd) \<in> set (all_rules (patterns self))" "re (pd_pattern pd) = None"
  shows "\<exists>c'. fold (scan_path re) files (self, n, m) =
           (self\<lparr>finding_counter := c'\<rparr>,
            n + int (length (filter counted files)),
            m + sum_list (map line_count (filter counted files)))"
  using assms
proof (induction files arbitrary: self n m)
  case Nil
  show ?case by (intro exI [of _ "finding_counter self"]) simp
next
  case (Cons f files)
  from scan_path_uncompilable [where re = re and f = f and n = n and m = m, OF Cons.prems]
  obtain c1 where st: "scan_path re f (self, n, m) =
           (self\<lparr>finding_counter := c1\<rparr>,
            n + (if counted f then 1 else 0),
            m + (if counted f then line_count f else 0))" by blast
  have p: "(cat, pd) \<in> set (all_rules (patterns (self\<lparr>finding_counter := c1\<rparr>)))"
    using Cons.prems(1) by simp
  from Cons.IH [OF p Cons.prems(2)]
  obtain c' where "fold (scan_path re) files
        (self\<lparr>finding_counter := c1\<rparr>, n + (if counted f then 1 else 0),
         m + (if counted f then line_count f else 0)) =
       (self\<lparr>finding_counter := c1\<rparr>\<lparr>finding_counter := c'\<rparr>,
        n + (if counted f then 1 else 0) + int (length (filter counted files)),
        m + (if counted f then line_count f else 0) + sum_list (map line_count (filter counted files)))"
    by blast
  with st show ?case by (auto simp: add.assoc)
qed

lemma fold_nested:
  "fold (\<lambda>x st. fold f (g x) st) xs st = fold f (concat (map g xs)) st"
  by (induction xs arbitrary: st) simp_all

lemma scan_tree_walked:
  "scan_tree env st = fold (scan_path (re_compile env)) (walked env) st"
  by (simp add: scan_tree_def walked_def fold_nested)

lemma scan_collect_uncompilable:
  assumes "(cat, pd) \<in> set (all_rules (patterns self))"
    and "re_compile env (pd_pattern pd) = None"
  shows "\<exists>c. scan_collect env self =
           (case scan_dependencies (str_lower env) (requirements_txt env) (package_json env) c of
              (Inl e, c') \<Rightarrow> (Inl e, self\<lparr>finding_counter := c'\<rparr>)
            | (Inr deps, c') \<Rightarrow>
                (Inr (int (length (filter counted (walked env))),
                      sum_list (map line_count (filter counted (walked env)))),
                 self\<lparr>finding_counter := c', self_findings := self_findings self @ deps\<rparr>))"
proof -
  from scan_paths_uncompilable [where re = "re_compile env" and files = "walked env"
      and n = 0 and m = 0, OF assms]
  obtain c where t: "scan_tree env (self, 0, 0) =
      (self\<lparr>finding_counter := c\<rparr>, int (length (filter counted (walked env))),
       sum_list (map line_count (filter counted (walked env))))"
    by (auto simp: scan_tree_walked)
  show ?thesis
    by (intro exI [of _ c]) (simp add: scan_collect_def t split: prod.splits sum.splits)
qed

text \<open>C7, as stated, fails: with a rule whose pattern does not compile in the registry,
  \<^verbatim>\<open>scan\<close> still returns a report. Both files of the project are counted as scanned and
  contribute nothing, although the same project yields four findings under the built-in
  registry alone.\<close>

theorem scan_with_uncompilable_pattern_returns_report:
  "(''custom'', bad_rule) \<in> set (all_rules (patterns auditor_with_bad_rule))
   \<and> re_compile sample_project (pd_pattern bad_rule) = None
   \<and> fst (scan sample_project auditor_with_bad_rule)
       = Inr \<lparr>project_path = ''proj'', scan_time = 0, duration_ms = 7, files_scanned = 2,
              lines_scanned = 3, findings = [], summary = []\<rparr>
   \<and> length (findings (projr (fst (scan sample_project (init ''proj''))))) = 4"
  by code_simp

text \<open>C7, amended. Patterns are compiled inside \<^verbatim>\<open>scan_file\<close>, once per rule and file,
  not when the registry is built. When some rule's pattern does not compile, the exception
  is swallowed by the handler around each file in \<^verbatim>\<open>scan\<close>: every file that is read is
  counted in \<^verbatim>\<open>files_scanned\<close> and \<^verbatim>\<open>lines_scanned\<close> but contributes no finding, and
  \<^verbatim>\<open>scan\<close> still returns a report (unless \<^verbatim>\<open>requirements.txt\<close> is unreadable), whose
  findings are the ones the auditor already held and the dependency findings.\<close>

theorem scan_uncompilable_pattern_is_swallowed:
  assumes "(cat, pd) \<in> set (all_rules (patterns self))"
    and "re_compile env (pd_pattern pd) = None"
  shows "(requirements_txt env \<noteq> RequirementsUnreadable \<longrightarrow> \<not> isl (fst (scan env self)))
         \<and> (\<forall>report self'. scan env self = (Inr report, self') \<longrightarrow>
               files_scanned report = int (length (filter counted (walked env)))
             \<and> lines_scanned report = sum_list (map line_count (filter counted (walked env)))
             \<and> (\<exists>c deps c'.
                   scan_dependencies (str_lower env) (requirements_txt env) (package_json env) c
                     = (Inr deps, c')
                 \<and> findings report
                     = sort_key (\<lambda>f. severity_order (severity f)) (self_findings self @ deps)))"
proof -
  from scan_collect_uncompilable [OF assms] obtain c where
    sc: "scan_collect env self =
           (case scan_dependencies (str_lower env) (requirements_txt env) (package_json env) c of
              (Inl e, c') \<Rightarrow> (Inl e, self\<lparr>finding_counter := c'\<rparr>)
            | (Inr deps, c') \<Rightarrow>
                (Inr (int (length (filter counted (walked env))),
                      sum_list (map line_count (filter counted (walked env)))),
                 self\<lparr>finding_counter := c', self_findings := self_findings self @ deps\<rparr>))"
    by blast
  obtain r c' where d: "scan_dependencies (str_lower env) (requirements_txt env) (package_json env) c
      = (r, c')"
    by (cases "scan_dependencies (str_lower env) (requirements_txt env) (package_json env) c")
  have a: "\<not> isl (fst (scan env self))" if "requirements_txt env \<noteq> RequirementsUnreadable"
  proof -
    from that d have "\<not> isl r"
      by (auto simp: scan_dependencies_def scan_requirements_def
          split: requirements_file.splits prod.splits sum.splits)
    then obtain deps where "r = Inr deps" by (cases r) simp_all
    with sc d show ?thesis by (simp add: scan_def Let_def)
  qed
  have b: "files_scanned report = int (length (filter counted (walked env)))
             \<and> lines_scanned report = sum_list (map line_count (filter counted (walked env)))
             \<and> (\<exists>c deps c'.
                   scan_dependencies (str_lower env) (requirements_txt env) (package_json env) c
                     = (Inr deps, c')
                 \<and> findings report
                     = sort_key (\<lambda>f. severity_order (severity f)) (self_findings self @ deps))"
    if s: "scan env self = (Inr report, self')" for report self'
  proof (cases r)
    case (Inl e)
    with sc d s show ?thesis by (simp add: scan_def)
  next
    case (Inr deps)
    with sc d s have "files_scanned report = int (length (filter counted (walked env)))"
      "lines_scanned report = sum_list (map line_count (filter counted (walked env)))"
      "findings report = sort_key (\<lambda>f. severity_order (severity f)) (self_findings self @ deps)"
      by (auto simp: scan_def Let_def)
    with d Inr show ?thesis by blast
  qed
  from a b show ?thesis by blast
qed

theorem scan_uncompilable_pattern_is_swallowed_witness:
  "(''custom'', bad_rule) \<in> set (all_rules (patterns auditor_with_bad_rule))
   \<and> re_compile sample_project (pd_pattern bad_rule) = None
   \<and> requirements_txt sample_project \<noteq> RequirementsUnreadable
   \<and> \<not> isl (fst (scan sample_project auditor_with_bad_rule))
   \<and> int (length (filter counted (walked sample_project))) = 2
   \<and> files_scanned (projr (fst (scan sample_project auditor_with_bad_rule))) = 2"
proof -
  let ?res = "scan sample_project auditor_with_bad_rule"
  have m: "(''custom'', bad_rule) \<in> set (all_rules (patterns auditor_with_bad_rule))"
    by code_simp
  have n: "re_compile sample_project (pd_pattern bad_rule) = None" by code_simp
  have q: "requirements_txt sample_project \<noteq> RequirementsUnreadable" by code_simp
  have k: "int (length (filter counted (walked sample_project))) = 2" by code_simp
  note t = scan_uncompilable_pattern_is_swallowed [OF m n]
  from t q have ok: "\<not> isl (fst ?res)" by blast
  have h: "?res = (Inr (projr (fst ?res)), snd ?res)"
    using not_isl_projr [OF ok] by (metis prod.collapse)
  from t h have "files_scanned (projr (fst ?res)) = int (length (filter counted (walked sample_project)))"
    by blast
  with k have "files_scanned (projr (fst ?res)) = 2" by simp
  with m n q ok k show ?thesis by blast
qed


section \<open>Failures during a scan\<close>

text \<open>A \<^verbatim>\<open>SyntaxError\<close> of \<^verbatim>\<open>ast.parse\<close> leaves the findings of the pattern loops as
  they are: the file yields exactly what the pattern loops produce.\<close>

lemma scan_file_syntax_error:
  "text_lines f = Some ls \<Longrightarrow> parsed f = SyntaxError \<Longrightarrow>
     scan_file re pats f c = scan_categories re (rel_path f) ls pats ([], c)"
  by (cases "scan_categories re (rel_path f) ls pats ([], c)")
     (auto simp: scan_file_def analyze_python_ast_def split: sum.splits)

text \<open>Any other exception of \<^verbatim>\<open>ast.parse\<close> leaves \<^verbatim>\<open>scan_file\<close>, and the loop in
  \<^verbatim>\<open>scan\<close> then drops the findings that the pattern loops had made for the file.\<close>

lemma scan_file_parse_exception:
  "text_lines f = Some ls \<Longrightarrow> suffix f = ''.py'' \<Longrightarrow> parsed f = OtherError \<Longrightarrow>
     isl (fst (scan_file re pats f c))"
  by (cases "scan_categories re (rel_path f) ls pats ([], c)")
     (auto simp: scan_file_def analyze_python_ast_def split: sum.splits)

lemma scan_path_parse_exception:
  assumes "text_lines f = Some ls" "suffix f = ''.py''" "parsed f = OtherError"
  shows "self_findings (fst (scan_path re f (self, n, m))) = self_findings self"
proof -
  from scan_file_parse_exception [OF assms, of re "patterns self" "finding_counter self"]
  obtain e c' where "scan_file re (patterns self) f (finding_counter self) = (Inl e, c')"
    by (cases "scan_file re (patterns self) f (finding_counter self)";
        cases "fst (scan_file re (patterns self) f (finding_counter self))") auto
  with assms(1) show ?thesis by (simp add: scan_path_def Let_def)
qed

lemma scan_unreadable_requirements:
  "requirements_txt env = RequirementsUnreadable \<Longrightarrow> fst (scan env self) = Inl ReadError"
  by (simp add: scan_def scan_collect_def scan_dependencies_def scan_requirements_def
      split: prod.splits)

text \<open>C9. The scan of a project whose \<^verbatim>\<open>requirements.txt\<close> cannot be read as text does
  not return a report: the exception of \<^verbatim>\<open>read_text\<close> leaves \<^verbatim>\<open>scan\<close>, and the process
  ends with status 1.\<close>

theorem scan_raises_on_unreadable_requirements:
  "fst (scan unreadable_requirements_project (init ''proj'')) = Inl ReadError
   \<and> main (plain_run unreadable_requirements_project) = 1"
  by code_simp

section \<open>Independence of the finding ids and of the order of traversal\<close>










lemma same_outcome_refl_cases:
  assumes "same_outcome (r1, c1) (r2, c2)"
  shows "(case r1 of Inl e \<Rightarrow> [] | Inr fs \<Rightarrow> map anonymous fs)
       = (case r2 of Inl e \<Rightarrow> [] | Inr fs \<Rightarrow> map anonymous fs)
       \<and> (isl r1 \<longleftrightarrow> isl r2)"
  using assms by (cases r1; cases r2) (simp_all add: same_outcome_def)




















end
